theory Spec2Isabelle
  imports Complex_Main "HOL-Library.Word"
begin

section \<open>PDV backup analyzer: the analysis engine of app.py\<close>

text \<open>
  A shallow embedding of \<^verbatim>\<open>PDVBackupAnalyzer\<close> (app.py): signature check, byte
  distribution, null regions, structural blocks, invoice extraction and the density map.

  Conventions of the model:
  \<^item> a byte of a Python \<^verbatim>\<open>bytes\<close> object is an \<open>8 word\<close>;
  \<^item> Python integers (offsets, sizes, counts) are \<open>int\<close>;
  \<^item> a Python \<^verbatim>\<open>str\<close> is the list of its Unicode code points (\<open>nat list\<close>);
  \<^item> a Python \<^verbatim>\<open>float\<close> is modelled by the exact rational it approximates
    (\<open>rat\<close>): rounding to a double is not modelled;
  \<^item> \<^verbatim>\<open>datetime.now()\<close> reads a clock: the clock is a function from the number of
    readings taken so far to the time read, and the state counts the readings.
\<close>

type_synonym byte = "8 word"
type_synonym pystr = "nat list"
type_synonym tempo = int
type_synonym relogio = "nat \<Rightarrow> tempo"

datatype erro =
    SemAssinaturaHE3      \<comment> \<open>\<^verbatim>\<open>st.error("Arquivo nao possui a assinatura HE3!"); return None\<close>\<close>
  | ZeroDivisionError     \<comment> \<open>Python's exception on \<^verbatim>\<open>/\<close> and \<^verbatim>\<open>//\<close> by zero\<close>
  | AttributeError        \<comment> \<open>Python's exception on a field access of \<^verbatim>\<open>None\<close>\<close>

definition entao :: "erro + 'a \<Rightarrow> ('a \<Rightarrow> erro + 'b) \<Rightarrow> erro + 'b" where
  "entao r f = (case r of Inl e \<Rightarrow> Inl e | Inr x \<Rightarrow> f x)"

subsection \<open>Python library functions used by the analyzer\<close>

definition cp :: "string \<Rightarrow> pystr" where
  \<comment> \<open>the code points of an ASCII string literal\<close>
  "cp s = map of_char s"

definition chr_byte :: "byte \<Rightarrow> nat" where
  \<comment> \<open>\<^verbatim>\<open>chr(b)\<close> for a byte\<close>
  "chr_byte b = unat b"

definition fatia :: "'a list \<Rightarrow> int \<Rightarrow> int \<Rightarrow> 'a list" where
  \<comment> \<open>the slice \<^verbatim>\<open>xs[a:b]\<close>: a negative bound counts from the end, both bounds are clamped\<close>
  "fatia xs a b =
     (let n = int (length xs);
          a' = (if a < 0 then max (a + n) 0 else min a n);
          b' = (if b < 0 then max (b + n) 0 else min b n)
      in take (nat (b' - a')) (drop (nat a') xs))"

definition continuacao :: "byte \<Rightarrow> bool" where
  "continuacao b = (128 \<le> b \<and> b < 192)"

text \<open>
  \<^verbatim>\<open>bs.decode('utf-8', errors='ignore')\<close>. One step of CPython's decoder at the head of
  the input gives the code point decoded, or \<open>None\<close> for bytes that the handler drops,
  and the number of bytes consumed. An invalid start byte is dropped alone; a sequence cut
  by the end of the input is dropped whole; a sequence broken by a byte that is not a
  continuation is dropped up to that byte, which is decoded again as a start byte.
  \<open>seq2\<close>, \<open>seq3\<close> and \<open>seq4\<close> are the steps for a start byte that announces two,
  three and four bytes.
\<close>

definition seq2 :: "byte \<Rightarrow> byte list \<Rightarrow> nat option \<times> nat" where
  "seq2 b0 r0 =
     (case r0 of
        [] \<Rightarrow> (None, 1)
      | b1 # r1 \<Rightarrow>
          if \<not> continuacao b1 then (None, 1)
          else (Some ((unat b0 - 192) * 64 + (unat b1 - 128)), 2))"

definition seq3 :: "byte \<Rightarrow> byte list \<Rightarrow> nat option \<times> nat" where
  "seq3 b0 r0 =
     (case r0 of
        [] \<Rightarrow> (None, 1)
      | b1 # r1 \<Rightarrow>
          if \<not> continuacao b1 \<or> (b0 = 224 \<and> b1 < 160) \<or> (b0 = 237 \<and> 160 \<le> b1)
          then (None, 1)
          else (case r1 of
                  [] \<Rightarrow> (None, 2)
                | b2 # r2 \<Rightarrow>
                    if \<not> continuacao b2 then (None, 2)
                    else (Some ((unat b0 - 224) * 4096 + (unat b1 - 128) * 64
                                 + (unat b2 - 128)), 3)))"

definition seq4 :: "byte \<Rightarrow> byte list \<Rightarrow> nat option \<times> nat" where
  "seq4 b0 r0 =
     (case r0 of
        [] \<Rightarrow> (None, 1)
      | b1 # r1 \<Rightarrow>
          if \<not> continuacao b1 \<or> (b0 = 240 \<and> b1 < 144) \<or> (b0 = 244 \<and> 144 \<le> b1)
          then (None, 1)
          else (case r1 of
                  [] \<Rightarrow> (None, 2)
                | b2 # r2 \<Rightarrow>
                    if \<not> continuacao b2 then (None, 2)
                    else (case r2 of
                            [] \<Rightarrow> (None, 3)
                          | b3 # r3 \<Rightarrow>
                              if \<not> continuacao b3 then (None, 3)
                              else (Some ((unat b0 - 240) * 262144 + (unat b1 - 128) * 4096
                                           + (unat b2 - 128) * 64 + (unat b3 - 128)), 4))))"

definition passo_utf8 :: "byte list \<Rightarrow> nat option \<times> nat" where
  "passo_utf8 bs =
     (case bs of
        [] \<Rightarrow> (None, 0)
      | b0 # r0 \<Rightarrow>
          if b0 < 128 then (Some (unat b0), 1)
          else if b0 < 194 then (None, 1)
          else if b0 < 224 then seq2 b0 r0
          else if b0 < 240 then seq3 b0 r0
          else if b0 < 245 then seq4 b0 r0
          else (None, 1))"

definition passo_ok :: "nat \<Rightarrow> nat option \<times> nat \<Rightarrow> bool" where
  "passo_ok n p = (0 < snd p \<and> snd p \<le> Suc n \<and> (fst p \<noteq> None \<longrightarrow> 2 \<le> snd p))"

lemma seq2_ok: "passo_ok (length r0) (seq2 b0 r0)"
  by (simp add: seq2_def passo_ok_def split: list.split)

lemma seq3_ok: "passo_ok (length r0) (seq3 b0 r0)"
  by (simp add: seq3_def passo_ok_def split: list.split)

lemma seq4_ok: "passo_ok (length r0) (seq4 b0 r0)"
  by (simp add: seq4_def passo_ok_def split: list.split)

lemma passo_utf8_ok: "b0 \<ge> 128 \<Longrightarrow> passo_ok (length r0) (passo_utf8 (b0 # r0))"
  using seq2_ok [of r0 b0] seq3_ok [of r0 b0] seq4_ok [of r0 b0]
  by (simp add: passo_utf8_def) (simp add: passo_ok_def)

lemma passo_utf8_ascii: "b0 < 128 \<Longrightarrow> passo_utf8 (b0 # r0) = (Some (unat b0), 1)"
  by (simp add: passo_utf8_def)

lemma passo_utf8_pos: "bs \<noteq> [] \<Longrightarrow> 0 < snd (passo_utf8 bs)"
proof (cases bs)
  case Nil
  assume "bs \<noteq> []"
  with Nil show ?thesis by simp
next
  case (Cons b0 r0)
  show ?thesis
  proof (cases "b0 < 128")
    case True
    then show ?thesis by (simp add: Cons passo_utf8_ascii)
  next
    case False
    then have "passo_ok (length r0) (passo_utf8 (b0 # r0))" by (simp add: passo_utf8_ok)
    then show ?thesis by (simp add: Cons passo_ok_def)
  qed
qed

function decode_utf8_ignore :: "byte list \<Rightarrow> pystr" where
  \<comment> \<open>the decoder: steps until the input is used up\<close>
  "decode_utf8_ignore bs =
     (if bs = [] then []
      else (case passo_utf8 bs of
              (None, k) \<Rightarrow> decode_utf8_ignore (drop k bs)
            | (Some c, k) \<Rightarrow> c # decode_utf8_ignore (drop k bs)))"
  by pat_completeness auto
termination
proof (relation "measure length")
  show "wf (measure length)" by simp
next
  fix bs :: "byte list" and x k
  assume "bs \<noteq> []" "(x, k) = passo_utf8 bs"
  then have "0 < k" using passo_utf8_pos [of bs] by (metis snd_conv)
  with \<open>bs \<noteq> []\<close> show "(drop k bs, bs) \<in> measure length" by simp
next
  fix bs :: "byte list" and x k c
  assume "bs \<noteq> []" "(x, k) = passo_utf8 bs"
  then have "0 < k" using passo_utf8_pos [of bs] by (metis snd_conv)
  with \<open>bs \<noteq> []\<close> show "(drop k bs, bs) \<in> measure length" by simp
qed

declare decode_utf8_ignore.simps [simp del]


definition isspace :: "nat \<Rightarrow> bool" where
  \<comment> \<open>\<^verbatim>\<open>str.isspace\<close> on one code point: the Unicode white space of CPython\<close>
  "isspace c = ((9 \<le> c \<and> c \<le> 13) \<or> (28 \<le> c \<and> c \<le> 32) \<or> c = 133 \<or> c = 160
       \<or> c = 5760 \<or> (8192 \<le> c \<and> c \<le> 8202) \<or> c = 8232 \<or> c = 8233 \<or> c = 8239
       \<or> c = 8287 \<or> c = 12288)"

definition strip :: "pystr \<Rightarrow> pystr" where
  \<comment> \<open>\<^verbatim>\<open>s.strip()\<close>\<close>
  "strip s = rev (dropWhile isspace (rev (dropWhile isspace s)))"

definition digito :: "nat \<Rightarrow> bool" where
  \<comment> \<open>\<^verbatim>\<open>str.isdigit\<close> on one code point below 256, the only ones the analyzer builds with
      \<^verbatim>\<open>chr\<close> of a byte: the ASCII digits and the superscripts 2, 3 and 1\<close>
  "digito c = ((48 \<le> c \<and> c \<le> 57) \<or> c = 178 \<or> c = 179 \<or> c = 185)"

definition isdigit :: "pystr \<Rightarrow> bool" where
  \<comment> \<open>\<^verbatim>\<open>s.isdigit()\<close>: false on the empty string\<close>
  "isdigit s = (s \<noteq> [] \<and> list_all digito s)"

definition valor_digitos :: "pystr \<Rightarrow> nat" where
  "valor_digitos s = foldl (\<lambda>a c. 10 * a + (c - 48)) 0 s"

definition py_float :: "pystr \<Rightarrow> rat option" where
  \<comment> \<open>\<^verbatim>\<open>float(s)\<close> on a plain decimal literal (ASCII digits with at most one point and at
      least one digit), the only strings the analyzer passes to it; \<open>None\<close> stands for the
      \<^verbatim>\<open>ValueError\<close> branch and is what the model answers on every other string\<close>
  "py_float s =
     (let a = takeWhile (\<lambda>c. c \<noteq> 46) s; b = drop 1 (dropWhile (\<lambda>c. c \<noteq> 46) s)
      in if list_all (\<lambda>c. 48 \<le> c \<and> c \<le> 57) (a @ b) \<and> a @ b \<noteq> []
         then Some (of_nat (valor_digitos a) + of_nat (valor_digitos b) / 10 ^ length b)
         else None)"

definition hex2 :: "byte \<Rightarrow> pystr" where
  \<comment> \<open>\<^verbatim>\<open>f'{b:02x}'\<close>\<close>
  "hex2 b =
     (let d = (\<lambda>n::nat. if n < 10 then 48 + n else 87 + n)
      in [d (unat b div 16), d (unat b mod 16)])"

definition contar :: "(byte \<Rightarrow> bool) \<Rightarrow> byte list \<Rightarrow> int" where
  \<comment> \<open>\<^verbatim>\<open>sum(1 for b in bs if P(b))\<close>\<close>
  "contar P bs = sum_list (map (\<lambda>b. 1) (filter P bs))"

subsection \<open>The data model\<close>

record ArquivoBackup =
  id_arquivo :: "int option"
  nome_arquivo :: pystr
  tamanho_bytes :: int
  assinatura :: pystr
  data_criacao :: tempo
  versao_formato :: pystr
  percentual_bytes_nulos :: rat
  percentual_controle :: rat
  percentual_ascii :: rat
  percentual_unicode :: rat
  numero_blocos :: int
  numero_regioes_nulas :: int
  capacidade_estimada :: int

definition ArquivoBackup_init :: "pystr \<Rightarrow> int \<Rightarrow> tempo \<Rightarrow> ArquivoBackup" where
  "ArquivoBackup_init nome tam agora =
     \<lparr>id_arquivo = None, nome_arquivo = nome, tamanho_bytes = tam, assinatura = [],
      data_criacao = agora, versao_formato = [], percentual_bytes_nulos = 0,
      percentual_controle = 0, percentual_ascii = 0, percentual_unicode = 0,
      numero_blocos = 0, numero_regioes_nulas = 0, capacidade_estimada = 0\<rparr>"

datatype tipo_bloco = SemTipo | CABECALHO | DEFINICAO | DADOS

record BlocoEstrutura =
  id_bloco :: "int option"
  arquivo_id :: "int option"
  posicao_inicio :: int
  posicao_fim :: int
  tamanho :: int
  tipo :: tipo_bloco
  contem_texto :: bool
  contem_binario :: bool
  padroes_repetitivos :: pystr
  bytes_mais_comuns :: pystr
  assinatura_hex :: pystr

definition BlocoEstrutura_init :: BlocoEstrutura where
  "BlocoEstrutura_init =
     \<lparr>id_bloco = None, arquivo_id = None, posicao_inicio = 0, posicao_fim = 0, tamanho = 0,
      tipo = SemTipo, contem_texto = False, contem_binario = False,
      padroes_repetitivos = cp ''{}'', bytes_mais_comuns = cp ''{}'', assinatura_hex = []\<rparr>"

record NotaFiscal =
  id_nota :: "int option"
  bloco_id :: "int option"
  posicao_registro :: int
  numero :: pystr
  serie :: pystr
  data_emissao :: tempo
  valor_total :: rat
  desconto :: rat
  acrescimo :: rat
  valor_final :: rat
  cliente_id :: "int option"
  status :: pystr
  tipo_nota :: pystr
  dados_brutos :: "byte list"

definition NotaFiscal_init :: "tempo \<Rightarrow> NotaFiscal" where
  "NotaFiscal_init agora =
     \<lparr>id_nota = None, bloco_id = None, posicao_registro = 0, numero = [], serie = [],
      data_emissao = agora, valor_total = 0, desconto = 0, acrescimo = 0, valor_final = 0,
      cliente_id = None, status = cp ''ATIVA'', tipo_nota = cp ''VENDA'', dados_brutos = []\<rparr>"

record regiao_nula =
  inicio :: int
  fim :: int
  tamanho_regiao :: int

text \<open>
  The analyzer object. \<open>leituras\<close> is not a field of the Python object: it is the number
  of clock readings taken so far, the part of the environment that the model threads
  along with the object. The lists \<^verbatim>\<open>itens\<close>, \<^verbatim>\<open>pagamentos\<close> and \<^verbatim>\<open>clientes\<close> are
  created empty and never touched, and are left out.
\<close>

record PDVBackupAnalyzer =
  arquivo :: "ArquivoBackup option"
  blocos :: "BlocoEstrutura list"
  regioes_nulas :: "regiao_nula list"
  notas_fiscais :: "NotaFiscal list"
  leituras :: nat

definition PDVBackupAnalyzer_init :: PDVBackupAnalyzer where
  "PDVBackupAnalyzer_init =
     \<lparr>arquivo = None, blocos = [], regioes_nulas = [], notas_fiscais = [], leituras = 0\<rparr>"

subsection \<open>mapear\_regioes\_nulas\<close>

function avanca_nao_nulos :: "byte list \<Rightarrow> int \<Rightarrow> int" where
  \<comment> \<open>\<^verbatim>\<open>while i < total_bytes and dados[i] != 0: i += 1\<close>\<close>
  "avanca_nao_nulos dados i =
     (if i < int (length dados) \<and> dados ! nat i \<noteq> 0 then avanca_nao_nulos dados (i + 1) else i)"
  by pat_completeness auto
termination
  by (relation "measure (\<lambda>(dados, i). nat (int (length dados) - i))") auto

declare avanca_nao_nulos.simps [simp del]

function avanca_nulos :: "byte list \<Rightarrow> int \<Rightarrow> int" where
  \<comment> \<open>\<^verbatim>\<open>while i < total_bytes and dados[i] == 0: i += 1\<close>\<close>
  "avanca_nulos dados i =
     (if i < int (length dados) \<and> dados ! nat i = 0 then avanca_nulos dados (i + 1) else i)"
  by pat_completeness auto
termination
  by (relation "measure (\<lambda>(dados, i). nat (int (length dados) - i))") auto

declare avanca_nulos.simps [simp del]

lemma avanca_nao_nulos_ge: "i \<le> avanca_nao_nulos dados i"
  by (induction dados i rule: avanca_nao_nulos.induct) (subst avanca_nao_nulos.simps, auto)

lemma avanca_nulos_ge: "i \<le> avanca_nulos dados i"
  by (induction dados i rule: avanca_nulos.induct) (subst avanca_nulos.simps, auto)

lemma avanca_progresso:
  assumes "i < int (length dados)"
  shows "i < avanca_nulos dados (avanca_nao_nulos dados i)"
proof (cases "dados ! nat i = 0")
  case True
  have "i + 1 \<le> avanca_nulos dados (i + 1)" by (rule avanca_nulos_ge)
  with True assms show ?thesis
    by (subst avanca_nao_nulos.simps, subst avanca_nulos.simps) simp
next
  case False
  have "i + 1 \<le> avanca_nao_nulos dados (i + 1)" by (rule avanca_nao_nulos_ge)
  moreover have "avanca_nao_nulos dados (i + 1)
      \<le> avanca_nulos dados (avanca_nao_nulos dados (i + 1))" by (rule avanca_nulos_ge)
  ultimately show ?thesis using False assms
    by (subst avanca_nao_nulos.simps) simp
qed

lemma avanca_nao_nulos_le: "i \<le> int (length dados) \<Longrightarrow> avanca_nao_nulos dados i \<le> int (length dados)"
  by (induction dados i rule: avanca_nao_nulos.induct) (subst avanca_nao_nulos.simps, auto)

lemma avanca_nulos_le: "i \<le> int (length dados) \<Longrightarrow> avanca_nulos dados i \<le> int (length dados)"
  by (induction dados i rule: avanca_nulos.induct) (subst avanca_nulos.simps, auto)

function regioes_loop :: "byte list \<Rightarrow> int \<Rightarrow> regiao_nula list \<Rightarrow> regiao_nula list" where
  \<comment> \<open>the outer \<^verbatim>\<open>while i < total_bytes\<close> of mapear\_regioes\_nulas, with \<^verbatim>\<open>tamanho_min = 20\<close>\<close>
  "regioes_loop dados i regs =
     (if i < int (length dados) then
        (let i1 = avanca_nao_nulos dados i;
             ini = i1;
             i2 = avanca_nulos dados i1;
             fi = i2 - 1
         in regioes_loop dados i2
              (if fi - ini + 1 \<ge> 20
               then regs @ [\<lparr>inicio = ini, fim = fi, tamanho_regiao = fi - ini + 1\<rparr>]
               else regs))
      else regs)"
  by pat_completeness auto
termination
  by (relation "measure (\<lambda>(dados, i, regs). nat (int (length dados) - i))")
     (use avanca_progresso in \<open>auto simp: Let_def\<close>)

declare regioes_loop.simps [simp del]

definition mapear_regioes_nulas :: "byte list \<Rightarrow> PDVBackupAnalyzer \<Rightarrow> erro + PDVBackupAnalyzer" where
  "mapear_regioes_nulas dados s =
     (let regs = regioes_loop dados 0 (regioes_nulas s)
      in case arquivo s of
           None \<Rightarrow> Inl AttributeError
         | Some a \<Rightarrow> Inr (s\<lparr>regioes_nulas := regs,
                           arquivo := Some (a\<lparr>numero_regioes_nulas := int (length regs)\<rparr>)\<rparr>))"

subsection \<open>identificar\_blocos\<close>

definition bloco_entre :: "byte list \<Rightarrow> int \<Rightarrow> regiao_nula \<Rightarrow> BlocoEstrutura" where
  \<comment> \<open>the block between \<^verbatim>\<open>posicao_atual\<close> and the start of a null region (the body of
      \<^verbatim>\<open>if regiao['inicio'] > posicao_atual\<close>)\<close>
  "bloco_entre dados posicao_atual regiao =
     (let b0 = BlocoEstrutura_init\<lparr>posicao_inicio := posicao_atual,
                                   posicao_fim := inicio regiao - 1\<rparr>;
          bloco = b0\<lparr>tamanho := posicao_fim b0 - posicao_inicio b0 + 1\<rparr>
      in if posicao_atual = 0 then bloco\<lparr>tipo := CABECALHO\<rparr>
         else
           (let dados_bloco = fatia dados (posicao_inicio bloco) (posicao_fim bloco + 1);
                texto_ascii = contar (\<lambda>b. 32 \<le> b \<and> b \<le> 127) dados_bloco
            in bloco\<lparr>contem_texto :=
                       ((of_int (int (length dados_bloco)) :: rat) * (1 / 2) < of_int texto_ascii),
                     contem_binario := list_ex (\<lambda>b. 127 < b) dados_bloco,
                     assinatura_hex := concat (map hex2 (fatia dados_bloco 0 16)),
                     tipo := (if posicao_atual < 1024 then DEFINICAO else DADOS)\<rparr>))"

fun blocos_loop ::
  "byte list \<Rightarrow> regiao_nula list \<Rightarrow> int \<Rightarrow> BlocoEstrutura list \<Rightarrow> int \<times> BlocoEstrutura list" where
  \<comment> \<open>\<^verbatim>\<open>for regiao in regioes_ordenadas\<close>: the cursor \<^verbatim>\<open>posicao_atual\<close> and the blocks so far\<close>
  "blocos_loop dados [] posicao_atual bl = (posicao_atual, bl)"
| "blocos_loop dados (regiao # rs) posicao_atual bl =
     blocos_loop dados rs (fim regiao + 1)
       (if posicao_atual < inicio regiao then bl @ [bloco_entre dados posicao_atual regiao]
        else bl)"

definition bloco_final :: "byte list \<Rightarrow> int \<Rightarrow> BlocoEstrutura" where
  \<comment> \<open>the block after the last null region (the body of \<^verbatim>\<open>if posicao_atual < len(dados)\<close>)\<close>
  "bloco_final dados posicao_atual =
     (let b0 = BlocoEstrutura_init\<lparr>posicao_inicio := posicao_atual,
                                   posicao_fim := int (length dados) - 1\<rparr>
      in b0\<lparr>tamanho := posicao_fim b0 - posicao_inicio b0 + 1, tipo := DADOS\<rparr>)"

definition identificar_blocos :: "byte list \<Rightarrow> PDVBackupAnalyzer \<Rightarrow> erro + PDVBackupAnalyzer" where
  \<comment> \<open>\<^verbatim>\<open>sorted(..., key=...)\<close> is a stable sort, as \<open>sort_key\<close> is\<close>
  "identificar_blocos dados s =
     (let regioes_ordenadas = sort_key inicio (regioes_nulas s);
          r = blocos_loop dados regioes_ordenadas 0 (blocos s);
          posicao_atual = fst r;
          bl = (if posicao_atual < int (length dados)
                then snd r @ [bloco_final dados posicao_atual] else snd r)
      in case arquivo s of
           None \<Rightarrow> Inl AttributeError
         | Some a \<Rightarrow> Inr (s\<lparr>blocos := bl,
                           arquivo := Some (a\<lparr>numero_blocos := int (length bl)\<rparr>)\<rparr>))"

subsection \<open>extrair\_notas\_fiscais\<close>

definition seis_digitos :: "byte list \<Rightarrow> int \<Rightarrow> bool" where
  \<comment> \<open>\<^verbatim>\<open>all(48 <= dados_bloco[i+j] <= 57 for j in range(6))\<close>\<close>
  "seis_digitos dados_bloco i =
     list_all (\<lambda>j. 48 \<le> dados_bloco ! nat (i + j) \<and> dados_bloco ! nat (i + j) \<le> 57) [0..5]"

definition valor_str_de :: "byte list \<Rightarrow> int \<Rightarrow> pystr" where
  \<comment> \<open>\<^verbatim>\<open>valor_bytes = dados_bloco[i+10:i+18]\<close> and
      \<^verbatim>\<open>valor_str = ''.join(chr(b) for b in valor_bytes if 32 <= b <= 127)\<close>\<close>
  "valor_str_de dados_bloco i =
     (let valor_bytes = fatia dados_bloco (i + 10) (i + 18)
      in map chr_byte (filter (\<lambda>b. 32 \<le> b \<and> b \<le> 127) valor_bytes))"

definition candidato ::
  "relogio \<Rightarrow> int \<Rightarrow> BlocoEstrutura \<Rightarrow> byte list \<Rightarrow> int \<Rightarrow> NotaFiscal list \<times> nat
     \<Rightarrow> NotaFiscal list \<times> nat" where
  \<comment> \<open>the body of the \<^verbatim>\<open>while\<close> at offset \<open>i\<close> of the block slice: the invoice list and the
      number of clock readings before and after. The reads \<^verbatim>\<open>dados_bloco[i+j]\<close> are in
      range, since the loop runs only while \<^verbatim>\<open>i < len(dados_bloco) - 20\<close>. In the
      \<^verbatim>\<open>try\<close>, \<open>None\<close> of \<open>py_float\<close> is the branch \<^verbatim>\<open>except: pass\<close>.\<close>
  "candidato rel k bloco dados_bloco i st =
     (let notas = fst st; n = snd st in
      if seis_digitos dados_bloco i then
        (let nota = (NotaFiscal_init (rel n))
                      \<lparr>bloco_id := Some k,
                       posicao_registro := posicao_inicio bloco + i,
                       numero := strip (map (\<lambda>j. chr_byte (dados_bloco ! nat (i + j))) [0..5]),
                       serie := strip (map (\<lambda>j. chr_byte (dados_bloco ! nat (i + 6 + j))) [0..2])\<rparr>
         in if isdigit (numero nota) \<and> 0 < length (numero nota) then
              (let valor_str = valor_str_de dados_bloco i
               in if isdigit (remove1 46 valor_str) then
                    (case py_float valor_str of
                       None \<Rightarrow> (notas, Suc n)
                     | Some v \<Rightarrow>
                         (let nota1 = nota\<lparr>valor_total := v\<rparr>;
                              nota2 = nota1\<lparr>valor_final := valor_total nota1\<rparr>
                          in if 0 < valor_total nota2 then (notas @ [nota2], Suc n)
                             else (notas, Suc n)))
                  else if 0 < valor_total nota then (notas @ [nota], Suc n)
                  else (notas, Suc n))
            else (notas, Suc n))
      else (notas, n))"

function notas_loop ::
  "relogio \<Rightarrow> int \<Rightarrow> BlocoEstrutura \<Rightarrow> byte list \<Rightarrow> int \<Rightarrow> NotaFiscal list \<times> nat
     \<Rightarrow> NotaFiscal list \<times> nat" where
  \<comment> \<open>\<^verbatim>\<open>while i < len(dados_bloco) - 20: ...; i += 1\<close>\<close>
  "notas_loop rel k bloco dados_bloco i st =
     (if i < int (length dados_bloco) - 20
      then notas_loop rel k bloco dados_bloco (i + 1) (candidato rel k bloco dados_bloco i st)
      else st)"
  by pat_completeness auto
termination
  by (relation "measure (\<lambda>(rel, k, bloco, dados_bloco, i, st). nat (int (length dados_bloco) - 20 - i))")
     auto

declare notas_loop.simps [simp del]

fun notas_blocos ::
  "relogio \<Rightarrow> byte list \<Rightarrow> BlocoEstrutura list \<Rightarrow> int \<Rightarrow> NotaFiscal list \<times> nat
     \<Rightarrow> NotaFiscal list \<times> nat" where
  \<comment> \<open>\<^verbatim>\<open>for bloco in blocos_dados\<close>; \<open>k\<close> is \<^verbatim>\<open>blocos_dados.index(bloco)\<close>, the position of
      the block object in \<^verbatim>\<open>blocos_dados\<close> (the class defines no equality, so \<^verbatim>\<open>index\<close>
      finds the object itself)\<close>
  "notas_blocos rel dados [] k st = st"
| "notas_blocos rel dados (bloco # bs) k st =
     notas_blocos rel dados bs (k + 1)
       (notas_loop rel k bloco
          (fatia dados (posicao_inicio bloco) (posicao_fim bloco + 1)) 0 st)"

definition extrair_notas_fiscais :: "relogio \<Rightarrow> byte list \<Rightarrow> PDVBackupAnalyzer \<Rightarrow> PDVBackupAnalyzer" where
  "extrair_notas_fiscais rel dados s =
     (let blocos_dados = filter (\<lambda>b. tipo b = DADOS) (blocos s);
          r = notas_blocos rel dados blocos_dados 0 (notas_fiscais s, leituras s)
      in s\<lparr>notas_fiscais := fst r, leituras := snd r\<rparr>)"

subsection \<open>carregar\_arquivo\<close>

definition contagem_bytes :: "byte list \<Rightarrow> int \<times> int \<times> int \<times> int" where
  \<comment> \<open>\<^verbatim>\<open>bytes_nulos\<close>, \<^verbatim>\<open>bytes_controle\<close>, \<^verbatim>\<open>bytes_ascii\<close> and \<^verbatim>\<open>bytes_unicode\<close> of
      carregar\_arquivo\<close>
  "contagem_bytes arquivo_bytes =
     (let total_bytes = int (length arquivo_bytes);
          bytes_nulos = contar (\<lambda>b. b = 0) arquivo_bytes;
          bytes_controle = contar (\<lambda>b. b < 32) arquivo_bytes;
          bytes_ascii = contar (\<lambda>b. 32 \<le> b \<and> b \<le> 127) arquivo_bytes;
          bytes_unicode = total_bytes - bytes_nulos - bytes_controle - bytes_ascii
      in (bytes_nulos, bytes_controle, bytes_ascii, bytes_unicode))"

definition percentual :: "int \<Rightarrow> int \<Rightarrow> rat" where
  \<comment> \<open>\<^verbatim>\<open>(n / total_bytes) * 100\<close>, for a total that is not 0\<close>
  "percentual n total_bytes = of_int n / of_int total_bytes * 100"

definition carregar_arquivo ::
  "relogio \<Rightarrow> byte list \<Rightarrow> pystr \<Rightarrow> PDVBackupAnalyzer \<Rightarrow> erro + PDVBackupAnalyzer" where
  \<comment> \<open>the value returned by the method, \<^verbatim>\<open>self.arquivo\<close>, is the field \<open>arquivo\<close> of the state
      returned; \<open>Inl SemAssinaturaHE3\<close> is the \<^verbatim>\<open>return None\<close> after the error message\<close>
  "carregar_arquivo rel arquivo_bytes nome s =
     (let a0 = ArquivoBackup_init nome (int (length arquivo_bytes)) (rel (leituras s));
          s0 = s\<lparr>arquivo := Some a0, leituras := Suc (leituras s)\<rparr>
      in if 3 \<le> int (length arquivo_bytes)
            \<and> decode_utf8_ignore (fatia arquivo_bytes 0 3) = cp ''HE3''
         then
           (let a1 = a0\<lparr>assinatura := cp ''HE3'',
                        versao_formato := strip (decode_utf8_ignore (fatia arquivo_bytes 3 7))\<rparr>;
                total_bytes = int (length arquivo_bytes);
                c = contagem_bytes arquivo_bytes
            in if total_bytes = 0 then Inl ZeroDivisionError
               else
                 (let a2 = a1\<lparr>percentual_bytes_nulos := percentual (fst c) total_bytes,
                              percentual_controle := percentual (fst (snd c)) total_bytes,
                              percentual_ascii := percentual (fst (snd (snd c))) total_bytes,
                              percentual_unicode := percentual (snd (snd (snd c))) total_bytes\<rparr>
                  in entao (mapear_regioes_nulas arquivo_bytes (s0\<lparr>arquivo := Some a2\<rparr>))
                       (\<lambda>s1. entao (identificar_blocos arquivo_bytes s1)
                          (\<lambda>s2. Inr (extrair_notas_fiscais rel arquivo_bytes s2)))))
         else Inl SemAssinaturaHE3)"

definition analisar :: "relogio \<Rightarrow> byte list \<Rightarrow> pystr \<Rightarrow> erro + PDVBackupAnalyzer" where
  \<comment> \<open>one analysis run, as main() does it: \<^verbatim>\<open>PDVBackupAnalyzer().carregar_arquivo(...)\<close>\<close>
  "analisar rel arquivo_bytes nome = carregar_arquivo rel arquivo_bytes nome PDVBackupAnalyzer_init"

subsection \<open>gerar\_mapa\_densidade\<close>

record janela_densidade =
  janela_inicio :: int
  janela_fim :: int
  densidade_nulos :: rat
  densidade_controle :: rat
  densidade_ascii :: rat
  densidade_unicode :: rat

definition janela :: "byte list \<Rightarrow> int \<Rightarrow> int \<Rightarrow> erro + janela_densidade" where
  \<comment> \<open>the body of \<^verbatim>\<open>for i in range(total_blocos)\<close>; the divisions by
      \<^verbatim>\<open>len(bloco_dados)\<close> raise when the slice is empty\<close>
  "janela dados tamanho_bloco i =
     (let ini = i * tamanho_bloco;
          fi = min ((i + 1) * tamanho_bloco - 1) (int (length dados) - 1);
          bloco_dados = fatia dados ini (fi + 1);
          bytes_nulos = contar (\<lambda>b. b = 0) bloco_dados;
          bytes_controle = contar (\<lambda>b. b < 32 \<and> b \<noteq> 0) bloco_dados;
          bytes_ascii = contar (\<lambda>b. 32 \<le> b \<and> b \<le> 127) bloco_dados;
          bytes_unicode = int (length bloco_dados) - bytes_nulos - bytes_controle - bytes_ascii
      in if length bloco_dados = 0 then Inl ZeroDivisionError
         else Inr \<lparr>janela_inicio = ini, janela_fim = fi,
                   densidade_nulos = of_int bytes_nulos / of_int (int (length bloco_dados)),
                   densidade_controle = of_int bytes_controle / of_int (int (length bloco_dados)),
                   densidade_ascii = of_int bytes_ascii / of_int (int (length bloco_dados)),
                   densidade_unicode = of_int bytes_unicode / of_int (int (length bloco_dados))\<rparr>)"

fun mapa_loop ::
  "byte list \<Rightarrow> int \<Rightarrow> int list \<Rightarrow> janela_densidade list \<Rightarrow> erro + janela_densidade list" where
  "mapa_loop dados tamanho_bloco [] mapa = Inr mapa"
| "mapa_loop dados tamanho_bloco (i # is) mapa =
     entao (janela dados tamanho_bloco i) (\<lambda>j. mapa_loop dados tamanho_bloco is (mapa @ [j]))"

definition gerar_mapa_densidade :: "byte list \<Rightarrow> int \<Rightarrow> erro + janela_densidade list" where
  \<comment> \<open>\<^verbatim>\<open>//\<close> raises on a window size of 0; \<^verbatim>\<open>range(n)\<close> is \<open>[0..n - 1]\<close>\<close>
  "gerar_mapa_densidade dados tamanho_bloco =
     (if tamanho_bloco = 0 then Inl ZeroDivisionError
      else
        (let total_blocos = (int (length dados) + tamanho_bloco - 1) div tamanho_bloco
         in mapa_loop dados tamanho_bloco [0..total_blocos - 1] []))"

section \<open>Notions used to state the properties\<close>

definition tem_assinatura :: "byte list \<Rightarrow> bool" where
  \<comment> \<open>the test of carregar\_arquivo on the first three bytes\<close>
  "tem_assinatura dados =
     (3 \<le> int (length dados) \<and> decode_utf8_ignore (fatia dados 0 3) = cp ''HE3'')"

definition lista_blocos :: "byte list \<Rightarrow> BlocoEstrutura list" where
  \<comment> \<open>the block list that a run from a fresh analyzer builds\<close>
  "lista_blocos dados =
     (let r = blocos_loop dados (sort_key inicio (regioes_loop dados 0 [])) 0 []
      in if fst r < int (length dados) then snd r @ [bloco_final dados (fst r)] else snd r)"

definition arquivo_final :: "relogio \<Rightarrow> byte list \<Rightarrow> pystr \<Rightarrow> ArquivoBackup" where
  \<comment> \<open>the \<^verbatim>\<open>ArquivoBackup\<close> that a run from a fresh analyzer returns\<close>
  "arquivo_final rel dados nome =
     (ArquivoBackup_init nome (int (length dados)) (rel 0))
       \<lparr>assinatura := cp ''HE3'',
        versao_formato := strip (decode_utf8_ignore (fatia dados 3 7)),
        percentual_bytes_nulos := percentual (fst (contagem_bytes dados)) (int (length dados)),
        percentual_controle := percentual (fst (snd (contagem_bytes dados))) (int (length dados)),
        percentual_ascii := percentual (fst (snd (snd (contagem_bytes dados)))) (int (length dados)),
        percentual_unicode := percentual (snd (snd (snd (contagem_bytes dados)))) (int (length dados)),
        numero_regioes_nulas := int (length (regioes_loop dados 0 [])),
        numero_blocos := int (length (lista_blocos dados))\<rparr>"

definition estado_final :: "relogio \<Rightarrow> byte list \<Rightarrow> pystr \<Rightarrow> PDVBackupAnalyzer" where
  \<comment> \<open>the analyzer after a successful run from a fresh analyzer\<close>
  "estado_final rel dados nome =
     (let r = notas_blocos rel dados (filter (\<lambda>b. tipo b = DADOS) (lista_blocos dados)) 0 ([], 1)
      in \<lparr>arquivo = Some (arquivo_final rel dados nome), blocos = lista_blocos dados,
          regioes_nulas = regioes_loop dados 0 [], notas_fiscais = fst r, leituras = snd r\<rparr>)"

fun bem_sep :: "int \<Rightarrow> int \<Rightarrow> regiao_nula list \<Rightarrow> bool" where
  \<comment> \<open>regions in ascending order inside \<open>[lo, n)\<close>, each with \<open>inicio \<le> fim\<close> and the size
      recorded, and at least one offset between a region and the next\<close>
  "bem_sep lo n [] = True"
| "bem_sep lo n (r # rs) =
     (lo \<le> inicio r \<and> inicio r \<le> fim r \<and> fim r < n
      \<and> tamanho_regiao r = fim r - inicio r + 1 \<and> bem_sep (fim r + 2) n rs)"

definition oc_b :: "BlocoEstrutura list \<Rightarrow> int \<Rightarrow> nat" where
  \<comment> \<open>the number of blocks of the list that contain offset \<open>k\<close>\<close>
  "oc_b bl k = length (filter (\<lambda>b. posicao_inicio b \<le> k \<and> k \<le> posicao_fim b) bl)"

definition oc_r :: "regiao_nula list \<Rightarrow> int \<Rightarrow> nat" where
  \<comment> \<open>the number of null regions of the list that contain offset \<open>k\<close>\<close>
  "oc_r rs k = length (filter (\<lambda>r. inicio r \<le> k \<and> k \<le> fim r) rs)"

definition ocupacao :: "PDVBackupAnalyzer \<Rightarrow> int \<Rightarrow> nat" where
  \<comment> \<open>the number of blocks and null regions of the analyzer that contain offset \<open>k\<close>\<close>
  "ocupacao s k = oc_b (blocos s) k + oc_r (regioes_nulas s) k"

definition digito_ascii :: "nat \<Rightarrow> bool" where
  "digito_ascii c = (48 \<le> c \<and> c \<le> 57)"

definition literal_decimal :: "pystr \<Rightarrow> bool" where
  \<comment> \<open>at most one decimal point, otherwise ASCII digits, and at least one digit\<close>
  "literal_decimal s =
     (count_list s 46 \<le> 1 \<and> list_all (\<lambda>c. c = 46 \<or> digito_ascii c) s \<and> list_ex digito_ascii s)"

definition bytes_de :: "string \<Rightarrow> byte list" where
  \<comment> \<open>the bytes of an ASCII literal \<^verbatim>\<open>b"..."\<close>\<close>
  "bytes_de s = map of_char s"

definition relogio_zero :: relogio where
  \<comment> \<open>a clock that always reads 0\<close>
  "relogio_zero n = 0"

definition relogio_um :: relogio where
  \<comment> \<open>a clock that always reads 1\<close>
  "relogio_um n = 1"

definition entrada_regiao :: "byte list" where
  \<comment> \<open>\<^verbatim>\<open>b"HE3" + b"\0"*20 + b"A"\<close>\<close>
  "entrada_regiao = bytes_de ''HE3'' @ replicate 20 0 @ bytes_de ''A''"

definition literal_em :: "byte list \<Rightarrow> int \<Rightarrow> pystr" where
  \<comment> \<open>the 8-byte window that starts 10 bytes after offset \<open>i\<close>, filtered to the bytes in
      \<open>[32, 127]\<close>, as text\<close>
  "literal_em dados_bloco i =
     map unat (filter (\<lambda>b. 32 \<le> b \<and> b \<le> 127) (take 8 (drop (nat (i + 10)) dados_bloco)))"

definition candidato_aceito :: "byte list \<Rightarrow> int \<Rightarrow> bool" where
  \<comment> \<open>the acceptance rule in the words of the specification: six ASCII digits at the
      offset, a decimal literal in the value window, and a positive value parsed from it\<close>
  "candidato_aceito dados_bloco i =
     (list_all (\<lambda>b. 48 \<le> b \<and> b \<le> 57) (take 6 (drop (nat i) dados_bloco))
      \<and> literal_decimal (literal_em dados_bloco i)
      \<and> (case py_float (literal_em dados_bloco i) of None \<Rightarrow> False | Some v \<Rightarrow> 0 < v))"

definition nota_de ::
  "relogio \<Rightarrow> int \<Rightarrow> BlocoEstrutura \<Rightarrow> byte list \<Rightarrow> int \<Rightarrow> nat \<Rightarrow> NotaFiscal" where
  \<comment> \<open>the record stored for an accepted candidate at offset \<open>i\<close> of the block slice, when
      \<open>n\<close> clock readings were taken before\<close>
  "nota_de rel k bloco dados_bloco i n =
     (NotaFiscal_init (rel n))
       \<lparr>bloco_id := Some k,
        posicao_registro := posicao_inicio bloco + i,
        numero := map unat (take 6 (drop (nat i) dados_bloco)),
        serie := strip (map unat (take 3 (drop (nat i + 6) dados_bloco))),
        valor_total := the (py_float (literal_em dados_bloco i)),
        valor_final := the (py_float (literal_em dados_bloco i))\<rparr>"

definition fatia_bloco :: "byte list \<Rightarrow> BlocoEstrutura \<Rightarrow> byte list" where
  \<comment> \<open>\<^verbatim>\<open>dados[bloco.posicao_inicio:bloco.posicao_fim+1]\<close>\<close>
  "fatia_bloco dados bloco = fatia dados (posicao_inicio bloco) (posicao_fim bloco + 1)"

definition resumo :: "NotaFiscal \<Rightarrow> int \<times> pystr \<times> pystr \<times> rat" where
  \<comment> \<open>offset, number, series and total value of an invoice record\<close>
  "resumo n = (posicao_registro n, numero n, serie n, valor_total n)"

definition resumo_em :: "BlocoEstrutura \<Rightarrow> byte list \<Rightarrow> int \<Rightarrow> int \<times> pystr \<times> pystr \<times> rat" where
  \<comment> \<open>what the specification reads at offset \<open>i\<close> of a block slice: the offset in the file,
      the six digits, the three characters after them (stripped), the value parsed from
      the value window\<close>
  "resumo_em bloco dados_bloco i =
     (posicao_inicio bloco + i,
      map unat (take 6 (drop (nat i) dados_bloco)),
      strip (map unat (take 3 (drop (nat i + 6) dados_bloco))),
      the (py_float (literal_em dados_bloco i)))"

definition aceitos :: "byte list \<Rightarrow> int list" where
  \<comment> \<open>the offsets scanned in a block slice (those with more than 20 bytes from the offset
      to the end of the slice) that the acceptance rule accepts, in ascending order\<close>
  "aceitos dados_bloco = filter (candidato_aceito dados_bloco) [0..int (length dados_bloco) - 21]"

definition sem_tempo_nota :: "NotaFiscal \<Rightarrow> NotaFiscal" where
  "sem_tempo_nota n = n\<lparr>data_emissao := 0\<rparr>"

definition sem_tempo :: "PDVBackupAnalyzer \<Rightarrow> PDVBackupAnalyzer" where
  \<comment> \<open>the analyzer with the two timestamps read from the clock, \<^verbatim>\<open>data_criacao\<close> of the
      file and \<^verbatim>\<open>data_emissao\<close> of every invoice record, set to 0\<close>
  "sem_tempo s =
     s\<lparr>arquivo := map_option (\<lambda>a. a\<lparr>data_criacao := 0\<rparr>) (arquivo s),
       notas_fiscais := map sem_tempo_nota (notas_fiscais s)\<rparr>"

definition valor_em :: "byte list \<Rightarrow> int \<Rightarrow> rat" where
  \<comment> \<open>the value parsed from the value window of the candidate at offset \<open>i\<close> of a block
      slice\<close>
  "valor_em dados_bloco i = the (py_float (literal_em dados_bloco i))"

definition valores :: "NotaFiscal \<Rightarrow> rat \<times> rat \<times> rat \<times> rat" where
  \<comment> \<open>total value, final value, discount and surcharge of an invoice record\<close>
  "valores n = (valor_total n, valor_final n, desconto n, acrescimo n)"

definition nota_integra :: "NotaFiscal \<Rightarrow> bool" where
  \<comment> \<open>final value equal to the total value, which is positive; no discount, no surcharge\<close>
  "nota_integra n =
     (valor_final n = valor_total n \<and> 0 < valor_total n \<and> desconto n = 0 \<and> acrescimo n = 0)"

fun notas_esperadas ::
  "(int \<Rightarrow> BlocoEstrutura \<Rightarrow> byte list \<Rightarrow> int \<Rightarrow> 'a) \<Rightarrow> byte list \<Rightarrow> BlocoEstrutura list \<Rightarrow> int
     \<Rightarrow> 'a list" where
  \<comment> \<open>for each block of the list in turn, numbered from \<open>k\<close>, what \<open>h\<close> gives at each
      accepted offset of the block's slice\<close>
  "notas_esperadas h dados [] k = []"
| "notas_esperadas h dados (b # bl) k =
     map (h k b (fatia_bloco dados b)) (aceitos (fatia_bloco dados b))
       @ notas_esperadas h dados bl (k + 1)"

fun leituras_esperadas :: "byte list \<Rightarrow> BlocoEstrutura list \<Rightarrow> nat" where
  \<comment> \<open>the number of offsets scanned in the slices of the blocks that start six digits: one
      clock reading is taken at each\<close>
  "leituras_esperadas dados [] = 0"
| "leituras_esperadas dados (b # bl) =
     length (filter (seis_digitos (fatia_bloco dados b))
               [0..int (length (fatia_bloco dados b)) - 21])
       + leituras_esperadas dados bl"

definition entrada_nota :: "byte list" where
  \<comment> \<open>\<^verbatim>\<open>b"HE3123456ABCx00012.50AAA"\<close>: no null region, one invoice at offset 3\<close>
  "entrada_nota = bytes_de ''HE3123456ABCx00012.50AAA''"

definition cenario :: "byte list" where
  \<comment> \<open>the buffer of the scenario:
      \<^verbatim>\<open>b"HE3" + b"1.0\0" + b"A"*100 + b"\0"*30 + b"123456ABC" + b"  12.50 " + b"\0"*25\<close>\<close>
  "cenario = bytes_de ''HE3'' @ bytes_de ''1.0'' @ [0] @ replicate 100 65 @ replicate 30 0
               @ bytes_de ''123456ABC'' @ bytes_de ''  12.50 '' @ replicate 25 0"

definition cenario_esperado :: "PDVBackupAnalyzer \<Rightarrow> bool" where
  \<comment> \<open>what the specification expects of the scenario: version "1.0", a HEADER block and a
      DATA block, null regions of 30 and 25 bytes, and exactly one invoice record, with
      number "123456", series "ABC" and a total value within 0.01 of 12.50\<close>
  "cenario_esperado s =
     (map_option assinatura (arquivo s) = Some (cp ''HE3'')
      \<and> map_option versao_formato (arquivo s) = Some (cp ''1.0'')
      \<and> map tipo (blocos s) = [CABECALHO, DADOS]
      \<and> map tamanho_regiao (regioes_nulas s) = [30, 25]
      \<and> map (\<lambda>n. (numero n, serie n)) (notas_fiscais s) = [(cp ''123456'', cp ''ABC'')]
      \<and> list_all (\<lambda>n. \<bar>valor_total n - 25 / 2\<bar> < 1 / 100) (notas_fiscais s))"

definition entrada_longa :: "byte list" where
  \<comment> \<open>\<^verbatim>\<open>b"HE3" + b"\0"*20 + b"A"*1100 + b"\0"*20\<close>: the second block spans \<open>[23, 1122]\<close>\<close>
  "entrada_longa = bytes_de ''HE3'' @ replicate 20 0 @ replicate 1100 65 @ replicate 20 0"

definition tipo_por_posicao :: "BlocoEstrutura \<Rightarrow> tipo_bloco" where
  \<comment> \<open>the kind by position in the words of the specification: HEADER at offset 0,
      DEFINITION for a later block wholly before offset 1024, DATA otherwise\<close>
  "tipo_por_posicao b =
     (if posicao_inicio b = 0 then CABECALHO
      else if posicao_fim b < 1024 then DEFINICAO else DADOS)"

definition tipo_por_inicio :: "int \<Rightarrow> BlocoEstrutura \<Rightarrow> tipo_bloco" where
  \<comment> \<open>the kind that the code assigns in a buffer of \<open>n\<close> bytes: the block that ends at the
      last byte is DATA; a block that ends at a null region is typed by its start offset\<close>
  "tipo_por_inicio n b =
     (if posicao_fim b = n - 1 then DADOS
      else if posicao_inicio b = 0 then CABECALHO
      else if posicao_inicio b < 1024 then DEFINICAO else DADOS)"

definition soma_percentuais :: "ArquivoBackup \<Rightarrow> rat" where
  \<comment> \<open>\<open>null% + (control% - null%) + ascii% + other%\<close>\<close>
  "soma_percentuais a =
     percentual_bytes_nulos a + (percentual_controle a - percentual_bytes_nulos a)
       + percentual_ascii a + percentual_unicode a"

definition janela_esperada :: "byte list \<Rightarrow> int \<Rightarrow> int \<Rightarrow> janela_densidade" where
  \<comment> \<open>window \<open>i\<close> of size \<open>t\<close>: the bytes from offset \<open>i * t\<close>, at most \<open>t\<close> of them, and the
      share of each of four disjoint classes in them: null, control without null,
      \<open>[32, 127]\<close>, and above 127\<close>
  "janela_esperada dados t i =
     (let w = take (nat t) (drop (nat (i * t)) dados);
          n = (of_int (int (length w)) :: rat)
      in \<lparr>janela_inicio = i * t,
          janela_fim = i * t + int (length w) - 1,
          densidade_nulos = of_int (int (length (filter (\<lambda>b. b = 0) w))) / n,
          densidade_controle = of_int (int (length (filter (\<lambda>b. 0 < b \<and> b < 32) w))) / n,
          densidade_ascii = of_int (int (length (filter (\<lambda>b. 32 \<le> b \<and> b \<le> 127) w))) / n,
          densidade_unicode = of_int (int (length (filter (\<lambda>b. 127 < b) w))) / n\<rparr>)"

section \<open>Facts about the model\<close>

subsection \<open>The decoder, slices and the scan for null regions\<close>

lemma length_decode: "length (decode_utf8_ignore bs) \<le> length bs"
proof (induction bs rule: decode_utf8_ignore.induct)
  case (1 bs)
  show ?case
  proof (cases "bs = []")
    case True
    then show ?thesis by (simp add: decode_utf8_ignore.simps)
  next
    case False
    obtain x k where p: "passo_utf8 bs = (x, k)" by (cases "passo_utf8 bs")
    with False have k: "0 < k" using passo_utf8_pos [of bs] by simp
    show ?thesis
    proof (cases x)
      case None
      with 1(1) [OF False p [symmetric]] p False k show ?thesis
        by (subst decode_utf8_ignore.simps) simp
    next
      case (Some c)
      with 1(2) [OF False p [symmetric]] p False k show ?thesis
        by (subst decode_utf8_ignore.simps) (cases bs, auto)
    qed
  qed
qed

lemma length_decode_nao_ascii:
  assumes "128 \<le> b0"
  shows "length (decode_utf8_ignore (b0 # r0)) \<le> length r0"
proof -
  obtain x k where p: "passo_utf8 (b0 # r0) = (x, k)" by (cases "passo_utf8 (b0 # r0)")
  have ok: "passo_ok (length r0) (x, k)" using passo_utf8_ok [OF assms, of r0] p by simp
  have l: "length (decode_utf8_ignore (drop k (b0 # r0))) \<le> length (b0 # r0) - k"
    using length_decode [of "drop k (b0 # r0)"] by simp
  show ?thesis
  proof (cases x)
    case None
    with p l ok show ?thesis
      by (subst decode_utf8_ignore.simps) (auto simp: passo_ok_def)
  next
    case (Some c)
    with p l ok show ?thesis
      by (subst decode_utf8_ignore.simps) (auto simp: passo_ok_def)
  qed
qed

lemma decode_ascii_cons:
  "b0 < 128 \<Longrightarrow> decode_utf8_ignore (b0 # r0) = unat b0 # decode_utf8_ignore r0"
  by (subst decode_utf8_ignore.simps) (simp add: passo_utf8_ascii)

lemma decode_cheio_cabeca:
  assumes "length (decode_utf8_ignore (b0 # r0)) = Suc (length r0)"
  shows "b0 < 128 \<and> decode_utf8_ignore (b0 # r0) = unat b0 # decode_utf8_ignore r0"
proof -
  have "b0 < 128"
  proof (rule ccontr)
    assume "\<not> b0 < 128"
    then have "128 \<le> b0" by simp
    from length_decode_nao_ascii [OF this, of r0] assms show False by simp
  qed
  then show ?thesis by (simp add: decode_ascii_cons)
qed



lemma contar_length: "contar P bs = int (length (filter P bs))"
  by (simp add: contar_def sum_list_triv)

lemma fatia_take_drop:
  "0 \<le> a \<Longrightarrow> a \<le> b \<Longrightarrow> fatia xs a b = take (nat (b - a)) (drop (nat a) xs)"
  by (auto simp: fatia_def Let_def min_def)

lemma avanca_nulos_para:
  "\<not> (avanca_nulos dados i < int (length dados) \<and> dados ! nat (avanca_nulos dados i) = 0)"
  by (induction dados i rule: avanca_nulos.induct) (subst (1 2) avanca_nulos.simps, auto)

lemma avanca_nao_nulos_passo:
  "i < int (length dados) \<Longrightarrow> dados ! nat i \<noteq> 0 \<Longrightarrow> i + 1 \<le> avanca_nao_nulos dados i"
  using avanca_nao_nulos_ge [of "i + 1" dados] by (subst avanca_nao_nulos.simps) simp

lemma regioes_loop_acc: "regioes_loop dados i acc = acc @ regioes_loop dados i []"
proof (induction "nat (int (length dados) - i)" arbitrary: i acc rule: less_induct)
  case less
  show ?case
  proof (cases "i < int (length dados)")
    case False
    then show ?thesis by (simp add: regioes_loop.simps)
  next
    case True
    define i1 where "i1 = avanca_nao_nulos dados i"
    define i2 where "i2 = avanca_nulos dados i1"
    define novo where "novo = (if 20 \<le> i2 - 1 - i1 + 1
        then [\<lparr>inicio = i1, fim = i2 - 1, tamanho_regiao = i2 - 1 - i1 + 1\<rparr>] else [])"
    have "i < i2" using avanca_progresso [OF True] by (simp add: i1_def i2_def)
    with True have m: "nat (int (length dados) - i2) < nat (int (length dados) - i)" by simp
    have l: "regioes_loop dados i acc = regioes_loop dados i2 (acc @ novo)"
      using True by (subst regioes_loop.simps) (simp add: Let_def i1_def i2_def novo_def)
    have r: "regioes_loop dados i [] = regioes_loop dados i2 novo"
      using True by (subst regioes_loop.simps) (simp add: Let_def i1_def i2_def novo_def)
    show ?thesis
      using less [OF m, of "acc @ novo"] less [OF m, of novo] by (simp add: l r)
  qed
qed

lemma regioes_loop_passo:
  assumes "i < int (length dados)"
  shows "regioes_loop dados i [] =
     (let i1 = avanca_nao_nulos dados i; i2 = avanca_nulos dados i1
      in (if 20 \<le> i2 - i1 then [\<lparr>inicio = i1, fim = i2 - 1, tamanho_regiao = i2 - i1\<rparr>] else [])
         @ regioes_loop dados i2 [])"
  using assms
  by (subst regioes_loop.simps, subst regioes_loop_acc) (simp add: Let_def)

lemma bem_sep_mono: "bem_sep lo n rs \<Longrightarrow> lo' \<le> lo \<Longrightarrow> bem_sep lo' n rs"
  by (cases rs) auto

lemma regioes_loop_bem_sep:
  "0 \<le> i \<Longrightarrow>
   bem_sep (if i < int (length dados) \<and> dados ! nat i \<noteq> 0 then i + 1 else i)
     (int (length dados)) (regioes_loop dados i [])"
proof (induction "nat (int (length dados) - i)" arbitrary: i rule: less_induct)
  case less
  show ?case
  proof (cases "i < int (length dados)")
    case False
    then show ?thesis by (simp add: regioes_loop.simps)
  next
    case True
    define i1 where "i1 = avanca_nao_nulos dados i"
    define i2 where "i2 = avanca_nulos dados i1"
    have "i < i2" using avanca_progresso [OF True] by (simp add: i1_def i2_def)
    with True have m: "nat (int (length dados) - i2) < nat (int (length dados) - i)" by simp
    have i1: "i \<le> i1" "i1 \<le> int (length dados)"
      using avanca_nao_nulos_ge [of i dados] avanca_nao_nulos_le [of i dados] True
      by (simp_all add: i1_def)
    have i1': "dados ! nat i \<noteq> 0 \<Longrightarrow> i + 1 \<le> i1"
      using avanca_nao_nulos_passo [OF True] by (simp add: i1_def)
    have i2: "i1 \<le> i2" "i2 \<le> int (length dados)"
      using avanca_nulos_ge [of i1 dados] avanca_nulos_le [of i1 dados] i1
      by (simp_all add: i2_def)
    have para: "\<not> (i2 < int (length dados) \<and> dados ! nat i2 = 0)"
      using avanca_nulos_para [of dados i1] by (simp add: i2_def)
    have "0 \<le> i2" using \<open>i < i2\<close> less.prems by simp
    from less.hyps [OF m this]
    have resto: "bem_sep (i2 + 1) (int (length dados)) (regioes_loop dados i2 [])"
    proof (cases "i2 < int (length dados)")
      case True
      with para show ?thesis
        using less.hyps [OF m \<open>0 \<le> i2\<close>] by simp
    next
      case False
      then show ?thesis by (simp add: regioes_loop.simps)
    qed
    show ?thesis
      using resto i1 i1' i2 \<open>i < i2\<close> True bem_sep_mono [OF resto, of "i + 1"]
        bem_sep_mono [OF resto, of i]
      by (subst regioes_loop_passo [OF True]) (auto simp: Let_def i1_def [symmetric] i2_def [symmetric] add.commute)
  qed
qed

subsection \<open>The loop over the regions\<close>

lemma oc_b_Cons:
  "oc_b (b # bl) k = (if posicao_inicio b \<le> k \<and> k \<le> posicao_fim b then 1 else 0) + oc_b bl k"
  by (simp add: oc_b_def)

lemma oc_r_Cons:
  "oc_r (r # rs) k = (if inicio r \<le> k \<and> k \<le> fim r then 1 else 0) + oc_r rs k"
  by (simp add: oc_r_def)

lemma blocos_loop_acc:
  "blocos_loop dados rs pos acc
     = (fst (blocos_loop dados rs pos []), acc @ snd (blocos_loop dados rs pos []))"
proof (induction rs arbitrary: pos acc)
  case Nil
  then show ?case by simp
next
  case (Cons r rs)
  show ?case
    using Cons [of "fim r + 1" "acc @ [bloco_entre dados pos r]"]
      Cons [of "fim r + 1" "[bloco_entre dados pos r]"] Cons [of "fim r + 1" acc]
    by simp
qed

lemma bloco_entre_campos:
  "posicao_inicio (bloco_entre dados pos r) = pos"
  "posicao_fim (bloco_entre dados pos r) = inicio r - 1"
  "tamanho (bloco_entre dados pos r) = inicio r - 1 - pos + 1"
  "tipo (bloco_entre dados pos r)
     = (if pos = 0 then CABECALHO else if pos < 1024 then DEFINICAO else DADOS)"
  by (simp_all add: bloco_entre_def Let_def BlocoEstrutura_init_def)

lemma bloco_final_campos:
  "posicao_inicio (bloco_final dados pos) = pos"
  "posicao_fim (bloco_final dados pos) = int (length dados) - 1"
  "tamanho (bloco_final dados pos) = int (length dados) - 1 - pos + 1"
  "tipo (bloco_final dados pos) = DADOS"
  by (simp_all add: bloco_final_def Let_def BlocoEstrutura_init_def)

lemma blocos_loop_cobertura:
  assumes "bem_sep (pos + 1) n rs"
  shows "pos \<le> fst (blocos_loop dados rs pos [])
     \<and> (rs \<noteq> [] \<longrightarrow> fst (blocos_loop dados rs pos []) \<le> n)
     \<and> (\<forall>k. oc_b (snd (blocos_loop dados rs pos [])) k + oc_r rs k
              = (if pos \<le> k \<and> k < fst (blocos_loop dados rs pos []) then 1 else 0))"
  using assms
proof (induction rs arbitrary: pos)
  case Nil
  then show ?case by (simp add: oc_b_def oc_r_def)
next
  case (Cons r rs)
  from Cons.prems have r: "pos < inicio r" "inicio r \<le> fim r" "fim r < n"
    and sep: "bem_sep (fim r + 1 + 1) n rs" by (simp_all add: add.commute)
  note ih = Cons.IH [OF sep]
  have eq: "blocos_loop dados (r # rs) pos []
      = (fst (blocos_loop dados rs (fim r + 1) []),
         bloco_entre dados pos r # snd (blocos_loop dados rs (fim r + 1) []))"
    using r by (simp add: blocos_loop_acc [of dados rs "fim r + 1" "[bloco_entre dados pos r]"])
  have fim_ok: "fst (blocos_loop dados rs (fim r + 1) []) \<le> n"
    using ih r by (cases rs) auto
  let ?p = "fst (blocos_loop dados rs (fim r + 1) [])"
  let ?bl = "snd (blocos_loop dados rs (fim r + 1) [])"
  have base: "fim r + 1 \<le> ?p" using ih by simp
  have conta: "oc_b (bloco_entre dados pos r # ?bl) k + oc_r (r # rs) k
      = (if pos \<le> k \<and> k < ?p then 1 else 0)" for k
  proof -
    have "oc_b ?bl k + oc_r rs k = (if fim r + 1 \<le> k \<and> k < ?p then 1 else 0)"
      using ih by blast
    then show ?thesis
      using r base by (auto simp: oc_b_Cons oc_r_Cons bloco_entre_campos split: if_splits)
  qed
  show ?case
    unfolding eq using r fim_ok base conta by simp
qed

lemma bem_sep_ordenado:
  "bem_sep lo n rs \<Longrightarrow> sorted (map inicio rs) \<and> (\<forall>r\<in>set rs. lo \<le> inicio r)"
proof (induction rs arbitrary: lo)
  case Nil
  then show ?case by simp
next
  case (Cons r rs)
  from Cons.prems have "bem_sep (fim r + 2) n rs" "lo \<le> inicio r" "inicio r \<le> fim r" by simp_all
  with Cons.IH [of "fim r + 2"] show ?case by fastforce
qed

lemma assinatura_primeiro_byte:
  assumes "3 \<le> int (length dados)" "decode_utf8_ignore (fatia dados 0 3) = cp ''HE3''"
  shows "dados ! 0 = 72"
proof -
  obtain a b c r where d: "dados = a # b # c # r"
    using assms(1) by (cases dados; cases "tl dados"; cases "tl (tl dados)") auto
  have f: "fatia dados 0 3 = [a, b, c]" by (simp add: d fatia_def)
  have "length (decode_utf8_ignore (a # [b, c])) = Suc (length [b, c])"
    using assms(2) by (simp add: f cp_def)
  from decode_cheio_cabeca [OF this] assms(2) have "unat a = 72"
    by (simp add: f cp_def)
  moreover have "a = of_nat (unat a)" by simp
  ultimately have "a = 72" by simp
  then show ?thesis by (simp add: d)
qed

subsection \<open>The result of a run from a fresh analyzer\<close>

lemma analisar_eq:
  "analisar rel dados nome
     = (if tem_assinatura dados then Inr (estado_final rel dados nome) else Inl SemAssinaturaHE3)"
proof (cases "tem_assinatura dados")
  case False
  then have c: "(3 \<le> int (length dados) \<and> decode_utf8_ignore (fatia dados 0 3) = cp ''HE3'') = False"
    by (simp add: tem_assinatura_def)
  show ?thesis
    unfolding analisar_def carregar_arquivo_def tem_assinatura_def Let_def c by simp
next
  case True
  then have c: "(3 \<le> int (length dados) \<and> decode_utf8_ignore (fatia dados 0 3) = cp ''HE3'') = True"
    by (simp add: tem_assinatura_def)
  from True have n: "dados \<noteq> []" by (auto simp: tem_assinatura_def)
  show ?thesis
    using n unfolding analisar_def carregar_arquivo_def tem_assinatura_def Let_def c
    by (simp add: Let_def entao_def mapear_regioes_nulas_def identificar_blocos_def
        extrair_notas_fiscais_def PDVBackupAnalyzer_init_def estado_final_def arquivo_final_def
        lista_blocos_def)
qed

lemma blocos_loop_props:
  assumes "bem_sep (pos + 1) n rs" "b \<in> set (snd (blocos_loop dados rs pos []))"
  shows "pos \<le> posicao_inicio b \<and> posicao_inicio b \<le> posicao_fim b \<and> posicao_fim b < n - 1
     \<and> tamanho b = posicao_fim b - posicao_inicio b + 1
     \<and> tipo b = (if posicao_inicio b = 0 then CABECALHO
                  else if posicao_inicio b < 1024 then DEFINICAO else DADOS)"
  using assms
proof (induction rs arbitrary: pos)
  case Nil
  then show ?case by simp
next
  case (Cons r rs)
  from Cons.prems(1) have r: "pos < inicio r" "inicio r \<le> fim r" "fim r < n"
    and sep: "bem_sep (fim r + 1 + 1) n rs" by (simp_all add: add.commute)
  have eq: "snd (blocos_loop dados (r # rs) pos [])
      = bloco_entre dados pos r # snd (blocos_loop dados rs (fim r + 1) [])"
    using r by (simp add: blocos_loop_acc [of dados rs "fim r + 1" "[bloco_entre dados pos r]"])
  from Cons.prems(2) [unfolded eq] consider "b = bloco_entre dados pos r"
    | "b \<in> set (snd (blocos_loop dados rs (fim r + 1) []))"
    by auto
  then show ?case
  proof cases
    case 1
    then show ?thesis using r by (simp add: bloco_entre_campos)
  next
    case 2
    from Cons.IH [OF sep 2] r show ?thesis by simp
  qed
qed

lemma regioes_iniciais:
  assumes "tem_assinatura dados"
  shows "bem_sep 1 (int (length dados)) (regioes_loop dados 0 [])"
proof -
  from assms have "dados ! 0 = 72" "0 < int (length dados)"
    using assinatura_primeiro_byte [of dados] by (auto simp: tem_assinatura_def)
  then show ?thesis
    using regioes_loop_bem_sep [of 0 dados] by simp
qed

lemma regioes_ordenadas:
  assumes "tem_assinatura dados"
  shows "sort_key inicio (regioes_loop dados 0 []) = regioes_loop dados 0 []"
  using bem_sep_ordenado [OF regioes_iniciais [OF assms]]
  by (simp add: sort_key_id_if_sorted)

lemma lista_blocos_eq:
  assumes "tem_assinatura dados"
  shows "lista_blocos dados =
     (let r = blocos_loop dados (regioes_loop dados 0 []) 0 []
      in if fst r < int (length dados) then snd r @ [bloco_final dados (fst r)] else snd r)"
  by (simp add: lista_blocos_def regioes_ordenadas [OF assms])

lemma oc_b_append: "oc_b (xs @ ys) k = oc_b xs k + oc_b ys k"
  by (simp add: oc_b_def)

subsection \<open>The signature test and the scan in closed form\<close>

lemma decode_HE3: "decode_utf8_ignore [72, 69, 51] = [72, 69, 51]"
  by (simp add: decode_ascii_cons decode_utf8_ignore.simps [of "[]"])

lemma tem_assinatura_iff: "tem_assinatura dados = (take 3 dados = [72, 69, 51])"
proof
  assume ta: "tem_assinatura dados"
  then obtain a b c r where d: "dados = a # b # c # r"
    by (cases dados; cases "tl dados"; cases "tl (tl dados)") (auto simp: tem_assinatura_def)
  have f: "fatia dados 0 3 = [a, b, c]" by (simp add: d fatia_def)
  from ta have e: "decode_utf8_ignore [a, b, c] = [72, 69, 51]"
    by (simp add: tem_assinatura_def f cp_def)
  from e have "length (decode_utf8_ignore (a # [b, c])) = Suc (length [b, c])" by simp
  from decode_cheio_cabeca [OF this] e
  have a: "unat a = 72" and e2: "decode_utf8_ignore [b, c] = [69, 51]" by simp_all
  from e2 have "length (decode_utf8_ignore (b # [c])) = Suc (length [c])" by simp
  from decode_cheio_cabeca [OF this] e2
  have b: "unat b = 69" and e3: "decode_utf8_ignore [c] = [51]" by simp_all
  from e3 have "length (decode_utf8_ignore (c # [])) = Suc (length ([] :: byte list))" by simp
  from decode_cheio_cabeca [OF this] e3
  have c: "unat c = 51" by simp
  have "a = of_nat (unat a)" "b = of_nat (unat b)" "c = of_nat (unat c)" by simp_all
  then have "a = 72" "b = 69" "c = 51" by (simp_all add: a b c)
  then show "take 3 dados = [72, 69, 51]" by (simp add: d)
next
  assume t: "take 3 dados = [72, 69, 51]"
  then have "length (take 3 dados) = 3" by simp
  then have l: "3 \<le> length dados" by simp
  then have "fatia dados 0 3 = take 3 dados" by (simp add: fatia_def min_def)
  with t l show "tem_assinatura dados"
    by (simp add: tem_assinatura_def cp_def decode_HE3)
qed

lemma avanca_nao_nulos_eq:
  "0 \<le> i \<Longrightarrow> avanca_nao_nulos dados i
     = i + int (length (takeWhile (\<lambda>b. b \<noteq> 0) (drop (nat i) dados)))"
proof (induction dados i rule: avanca_nao_nulos.induct)
  case (1 dados i)
  show ?case
  proof (cases "i < int (length dados) \<and> dados ! nat i \<noteq> 0")
    case True
    then have "nat i < length dados" using 1(2) by linarith
    then have "drop (nat i) dados = dados ! nat i # drop (Suc (nat i)) dados"
      by (rule Cons_nth_drop_Suc [symmetric])
    moreover have "nat (i + 1) = Suc (nat i)" using 1(2) by linarith
    ultimately have d: "drop (nat i) dados = dados ! nat i # drop (nat (i + 1)) dados" by simp
    from 1(1) [OF True] 1(2) True show ?thesis
      by (subst avanca_nao_nulos.simps) (simp add: d)
  next
    case False
    show ?thesis
    proof (cases "i < int (length dados)")
      case True
      then have "nat i < length dados" using 1(2) by linarith
      then have "drop (nat i) dados = dados ! nat i # drop (Suc (nat i)) dados"
        by (rule Cons_nth_drop_Suc [symmetric])
      with True False show ?thesis
        by (subst avanca_nao_nulos.simps) simp
    next
      case False
      then show ?thesis by (subst avanca_nao_nulos.simps) simp
    qed
  qed
qed

lemma avanca_nulos_eq:
  "0 \<le> i \<Longrightarrow> avanca_nulos dados i
     = i + int (length (takeWhile (\<lambda>b. b = 0) (drop (nat i) dados)))"
proof (induction dados i rule: avanca_nulos.induct)
  case (1 dados i)
  show ?case
  proof (cases "i < int (length dados) \<and> dados ! nat i = 0")
    case True
    then have "nat i < length dados" using 1(2) by linarith
    then have "drop (nat i) dados = dados ! nat i # drop (Suc (nat i)) dados"
      by (rule Cons_nth_drop_Suc [symmetric])
    moreover have "nat (i + 1) = Suc (nat i)" using 1(2) by linarith
    ultimately have d: "drop (nat i) dados = dados ! nat i # drop (nat (i + 1)) dados" by simp
    from 1(1) [OF True] 1(2) True show ?thesis
      by (subst avanca_nulos.simps) (simp add: d)
  next
    case False
    show ?thesis
    proof (cases "i < int (length dados)")
      case True
      then have "nat i < length dados" using 1(2) by linarith
      then have "drop (nat i) dados = dados ! nat i # drop (Suc (nat i)) dados"
        by (rule Cons_nth_drop_Suc [symmetric])
      with True False show ?thesis
        by (subst avanca_nulos.simps) simp
    next
      case False
      then show ?thesis by (subst avanca_nulos.simps) simp
    qed
  qed
qed

lemma regioes_loop_fim: "\<not> i < int (length dados) \<Longrightarrow> regioes_loop dados i [] = []"
  by (simp add: regioes_loop.simps)

lemma takeWhile_replicate_append:
  "takeWhile P (replicate n x @ ys)
     = (if P x then replicate n x @ takeWhile P ys else if n = 0 then takeWhile P ys else [])"
  by (cases n) (auto simp: takeWhile_append)

lemmas avalia_regioes = regioes_loop_passo regioes_loop_fim avanca_nao_nulos_eq avanca_nulos_eq
  Let_def takeWhile_replicate_append

subsection \<open>Decimal literals\<close>

lemma remove1_divide: "remove1 x s = takeWhile (\<lambda>c. c \<noteq> x) s @ drop 1 (dropWhile (\<lambda>c. c \<noteq> x) s)"
  by (induction s) auto

lemma count_list_remove1: "count_list (remove1 x s) x = count_list s x - 1"
  by (induction s) auto

lemma py_float_eq:
  "py_float s =
     (if list_all digito_ascii (remove1 46 s) \<and> remove1 46 s \<noteq> []
      then Some (of_nat (valor_digitos (takeWhile (\<lambda>c. c \<noteq> 46) s))
                 + of_nat (valor_digitos (drop 1 (dropWhile (\<lambda>c. c \<noteq> 46) s)))
                   / 10 ^ length (drop 1 (dropWhile (\<lambda>c. c \<noteq> 46) s)))
      else None)"
  unfolding py_float_def Let_def remove1_divide [of 46 s, symmetric] digito_ascii_def ..

lemma isdigit_ascii:
  assumes "list_all (\<lambda>c. c \<le> 127) s"
  shows "isdigit s = (s \<noteq> [] \<and> list_all digito_ascii s)"
proof -
  have "digito c = digito_ascii c" if "c \<le> 127" for c
    using that by (auto simp: digito_def digito_ascii_def)
  with assms have "list_all digito s = list_all digito_ascii s"
    by (induction s) auto
  then show ?thesis by (simp add: isdigit_def)
qed

lemma literal_decimal_iff:
  "literal_decimal s = (remove1 46 s \<noteq> [] \<and> list_all digito_ascii (remove1 46 s))"
proof
  assume l: "literal_decimal s"
  then have "count_list s 46 - 1 = 0" by (simp add: literal_decimal_def)
  then have c: "count_list (remove1 46 s) 46 = 0" by (simp only: count_list_remove1)
  have n: "46 \<notin> set (remove1 46 s)" using c by (metis count_list_0_iff)
  from l obtain d where d: "d \<in> set s" "digito_ascii d"
    by (auto simp: literal_decimal_def list_ex_iff)
  then have "d \<noteq> 46" by (auto simp: digito_ascii_def)
  with d have "d \<in> set (remove1 46 s)" by simp
  then have ne: "remove1 46 s \<noteq> []" by auto
  have "digito_ascii c" if "c \<in> set (remove1 46 s)" for c
  proof -
    from that have "c \<in> set s" using set_remove1_subset [of 46 s] by auto
    with l have "c = 46 \<or> digito_ascii c" by (auto simp: literal_decimal_def list_all_iff)
    with that n show ?thesis by auto
  qed
  with ne show "remove1 46 s \<noteq> [] \<and> list_all digito_ascii (remove1 46 s)"
    by (simp add: list_all_iff)
next
  assume r: "remove1 46 s \<noteq> [] \<and> list_all digito_ascii (remove1 46 s)"
  then have "46 \<notin> set (remove1 46 s)" by (auto simp: list_all_iff digito_ascii_def)
  then have "count_list (remove1 46 s) 46 = 0" by (metis count_list_0_iff)
  then have "count_list s 46 - 1 = 0" by (simp only: count_list_remove1)
  then have c: "count_list s 46 \<le> 1" by simp
  have a: "c = 46 \<or> digito_ascii c" if "c \<in> set s" for c
  proof (cases "c = 46")
    case False
    with that have "c \<in> set (remove1 46 s)" by simp
    with r show ?thesis by (auto simp: list_all_iff)
  qed simp
  from r obtain d where "d \<in> set (remove1 46 s)" by (cases "remove1 46 s") auto
  with r have "d \<in> set s" "digito_ascii d"
    using set_remove1_subset [of 46 s] by (auto simp: list_all_iff)
  with c a show "literal_decimal s"
    by (auto simp: literal_decimal_def list_all_iff list_ex_iff)
qed

lemma tem_assinatura_HE3: "tem_assinatura (bytes_de ''HE3'' @ r)"
  by (simp add: tem_assinatura_iff bytes_de_def)

subsection \<open>The invoice extractor\<close>

lemma indices_take_drop:
  assumes "0 \<le> i" "nat i + m + n \<le> length xs"
  shows "map (\<lambda>j. f (xs ! nat (i + int m + j))) [0..int n - 1] = map f (take n (drop (nat i + m) xs))"
proof (rule nth_equalityI)
  show "length (map (\<lambda>j. f (xs ! nat (i + int m + j))) [0..int n - 1])
      = length (map f (take n (drop (nat i + m) xs)))"
    using assms by simp
next
  fix q assume "q < length (map (\<lambda>j. f (xs ! nat (i + int m + j))) [0..int n - 1])"
  then have q: "q < n" by simp
  then have "[0..int n - 1] ! q = int q" by simp
  moreover have "nat (i + int m + int q) = nat i + m + q" using assms(1) by linarith
  ultimately show "map (\<lambda>j. f (xs ! nat (i + int m + j))) [0..int n - 1] ! q
      = map f (take n (drop (nat i + m) xs)) ! q"
    using q assms by (simp add: add.assoc)
qed

lemma seis_digitos_eq:
  assumes "0 \<le> i" "nat i + 6 \<le> length db"
  shows "seis_digitos db i = list_all (\<lambda>b. 48 \<le> b \<and> b \<le> 57) (take 6 (drop (nat i) db))"
proof -
  have "map (\<lambda>j. (\<lambda>b. 48 \<le> b \<and> b \<le> 57) (db ! nat (i + int 0 + j))) [0..int 6 - 1]
      = map (\<lambda>b. 48 \<le> b \<and> b \<le> 57) (take 6 (drop (nat i + 0) db))"
    using assms by (intro indices_take_drop) simp_all
  then have "list_all id (map (\<lambda>j. 48 \<le> db ! nat (i + j) \<and> db ! nat (i + j) \<le> 57) [0..5])
      = list_all id (map (\<lambda>b. 48 \<le> b \<and> b \<le> 57) (take 6 (drop (nat i) db)))"
    by simp
  then show ?thesis by (simp add: seis_digitos_def list_all_iff)
qed

lemma strip_sem_espaco:
  assumes "list_all (\<lambda>c. \<not> isspace c) s"
  shows "strip s = s"
proof -
  have d: "dropWhile isspace t = t" if "list_all (\<lambda>c. \<not> isspace c) t" for t
    using that by (cases t) simp_all
  from assms have "list_all (\<lambda>c. \<not> isspace c) (rev s)" by (simp add: list_all_iff)
  with assms show ?thesis by (simp add: strip_def d)
qed

lemma unat_digito:
  fixes b :: byte
  assumes "48 \<le> b \<and> b \<le> 57"
  shows "48 \<le> unat b \<and> unat b \<le> 57"
  using assms by (simp add: word_le_nat_alt)

lemma numero_digitos:
  assumes "list_all (\<lambda>b. 48 \<le> b \<and> b \<le> 57) (ds :: byte list)"
  shows "strip (map chr_byte ds) = map unat ds"
    and "ds \<noteq> [] \<Longrightarrow> isdigit (map unat ds)"
proof -
  have u: "48 \<le> unat b \<and> unat b \<le> 57" if "b \<in> set ds" for b
    using that assms unat_digito [of b] by (simp add: list_all_iff)
  then have "list_all (\<lambda>c. \<not> isspace c) (map unat ds)"
    by (fastforce simp: list_all_iff isspace_def)
  then show "strip (map chr_byte ds) = map unat ds"
    using strip_sem_espaco [of "map unat ds"] by (simp add: chr_byte_def [abs_def])
  show "isdigit (map unat ds)" if "ds \<noteq> []"
    using that u by (fastforce simp: isdigit_def list_all_iff digito_def)
qed

lemma valor_str_de_eq:
  assumes "0 \<le> i"
  shows "valor_str_de db i = literal_em db i"
  using assms
  by (simp add: valor_str_de_def literal_em_def fatia_take_drop chr_byte_def [abs_def])

lemma literal_em_ascii: "list_all (\<lambda>c. c \<le> 127) (literal_em db i)"
  by (auto simp: literal_em_def list_all_iff word_le_nat_alt)

lemma isdigit_literal:
  "isdigit (remove1 46 (literal_em db i)) = literal_decimal (literal_em db i)"
proof -
  have "list_all (\<lambda>c. c \<le> 127) (remove1 46 (literal_em db i))"
    using literal_em_ascii [of db i] set_remove1_subset [of 46 "literal_em db i"]
    by (auto simp: list_all_iff)
  from isdigit_ascii [OF this] show ?thesis by (simp add: literal_decimal_iff)
qed

lemma py_float_literal:
  "literal_decimal s \<Longrightarrow> py_float s \<noteq> None"
  by (simp add: py_float_eq literal_decimal_iff)

lemma candidato_eq:
  assumes "0 \<le> i" "i < int (length db) - 20"
  shows "candidato rel k bloco db i st
     = (fst st @ (if candidato_aceito db i then [nota_de rel k bloco db i (snd st)] else []),
        snd st + (if seis_digitos db i then 1 else 0))"
proof -
  have r6: "nat i + 6 \<le> length db" and r9: "nat i + 6 + 3 \<le> length db"
    using assms by linarith+
  let ?ds = "take 6 (drop (nat i) db)"
  have sd: "seis_digitos db i = list_all (\<lambda>b. 48 \<le> b \<and> b \<le> 57) ?ds"
    by (rule seis_digitos_eq [OF assms(1) r6])
  have m6: "map (\<lambda>j. chr_byte (db ! nat (i + j))) [0..5] = map chr_byte ?ds"
    using indices_take_drop [OF assms(1), of 0 6 db chr_byte] r6 by simp
  have m3: "map (\<lambda>j. chr_byte (db ! nat (i + 6 + j))) [0..2] = map unat (take 3 (drop (nat i + 6) db))"
    using indices_take_drop [OF assms(1), of 6 3 db chr_byte] r9 by (simp add: chr_byte_def [abs_def])
  have ne: "?ds \<noteq> []" using r6 by auto
  show ?thesis
  proof (cases "seis_digitos db i")
    case False
    then show ?thesis by (simp add: candidato_def candidato_aceito_def sd [symmetric])
  next
    case True
    then have ds: "list_all (\<lambda>b. 48 \<le> b \<and> b \<le> 57) ?ds" by (simp add: sd)
    note nd = numero_digitos [OF ds]
    have num: "strip (map (\<lambda>j. chr_byte (db ! nat (i + j))) [0..5]) = map unat ?ds"
      by (simp only: m6 nd(1))
    have dig: "isdigit (map unat ?ds)" by (rule nd(2) [OF ne])
    have len: "0 < length (map unat ?ds)" using ne by simp
    show ?thesis
    proof (cases "literal_decimal (literal_em db i)")
      case False
      with True ds dig len show ?thesis
        by (simp add: candidato_def Let_def num m3 valor_str_de_eq [OF assms(1)] isdigit_literal
            candidato_aceito_def NotaFiscal_init_def)
    next
      case lit: True
      then obtain v where v: "py_float (literal_em db i) = Some v"
        using py_float_literal [of "literal_em db i"] by auto
      with True ds dig len lit show ?thesis
        by (simp add: candidato_def Let_def num m3 valor_str_de_eq [OF assms(1)] isdigit_literal
            candidato_aceito_def nota_de_def)
    qed
  qed
qed

lemma notas_loop_fim:
  "\<not> i < int (length db) - 20 \<Longrightarrow> notas_loop rel k bloco db i st = st"
  by (subst notas_loop.simps) simp

lemma notas_loop_passo:
  "i < int (length db) - 20 \<Longrightarrow>
   notas_loop rel k bloco db i st = notas_loop rel k bloco db (i + 1) (candidato rel k bloco db i st)"
  by (subst notas_loop.simps) simp

lemma notas_loop_proj:
  assumes g: "\<And>j n. g (nota_de rel k bloco db j n) = h j"
  shows "0 \<le> i \<Longrightarrow>
     map g (fst (notas_loop rel k bloco db i st))
       = map g (fst st) @ map h (filter (candidato_aceito db) [i..int (length db) - 21])
     \<and> snd (notas_loop rel k bloco db i st)
       = snd st + length (filter (seis_digitos db) [i..int (length db) - 21])"
proof (induction "nat (int (length db) - 20 - i)" arbitrary: i st rule: less_induct)
  case less
  show ?case
  proof (cases "i < int (length db) - 20")
    case False
    then have "[i..int (length db) - 21] = []" by simp
    with False show ?thesis by (simp add: notas_loop_fim)
  next
    case True
    then have u: "[i..int (length db) - 21] = i # [i + 1..int (length db) - 21]"
      by (simp add: upto_rec1)
    from True have m: "nat (int (length db) - 20 - (i + 1)) < nat (int (length db) - 20 - i)"
      by simp
    from less.prems have "0 \<le> i + 1" by simp
    note ih = less.hyps [OF m this, of "candidato rel k bloco db i st"]
    note c = candidato_eq [OF less.prems True, of rel k bloco st]
    show ?thesis
      unfolding notas_loop_passo [OF True] u using ih
      by (simp add: c g)
  qed
qed

lemma notas_blocos_proj:
  assumes g: "\<And>k bloco db j n. g (nota_de rel k bloco db j n) = h k bloco db j"
  shows "map g (fst (notas_blocos rel dados bl k st))
       = map g (fst st) @ notas_esperadas h dados bl k
     \<and> snd (notas_blocos rel dados bl k st) = snd st + leituras_esperadas dados bl"
proof (induction bl arbitrary: k st)
  case Nil
  then show ?case by simp
next
  case (Cons b bl)
  let ?db = "fatia_bloco dados b"
  have "0 \<le> (0::int)" by simp
  note l = notas_loop_proj [of g rel k b ?db "h k b ?db", OF g this, of st]
  show ?case
    using Cons [of "k + 1" "notas_loop rel k b ?db 0 st"] l
    by (simp add: fatia_bloco_def [symmetric] aceitos_def)
qed

lemma notas_esperadas_concat:
  "notas_esperadas (\<lambda>k. h) dados bl k
     = concat (map (\<lambda>b. map (h b (fatia_bloco dados b)) (aceitos (fatia_bloco dados b))) bl)"
  by (induction bl arbitrary: k) simp_all

lemma resumo_nota_de: "resumo (nota_de rel k bloco db j n) = resumo_em bloco db j"
  by (simp add: resumo_def resumo_em_def nota_de_def)

lemma valores_nota_de:
  "valores (nota_de rel k bloco db j n) = (valor_em db j, valor_em db j, 0, 0)"
  by (simp add: valores_def valor_em_def nota_de_def NotaFiscal_init_def)

lemma aceito_valor_positivo: "j \<in> set (aceitos db) \<Longrightarrow> 0 < valor_em db j"
  by (auto simp: aceitos_def candidato_aceito_def valor_em_def split: option.splits)

lemma sem_tempo_nota_de:
  "sem_tempo_nota (nota_de rel k bloco db j n) = sem_tempo_nota (nota_de relogio_zero k bloco db j 0)"
  by (simp add: sem_tempo_nota_def nota_de_def NotaFiscal_init_def)

lemma notas_estado_final:
  assumes g: "\<And>k bloco db j n. g (nota_de rel k bloco db j n) = h k bloco db j"
  shows "map g (notas_fiscais (estado_final rel dados nome))
     = notas_esperadas h dados (filter (\<lambda>b. tipo b = DADOS) (lista_blocos dados)) 0"
    and "leituras (estado_final rel dados nome)
     = 1 + leituras_esperadas dados (filter (\<lambda>b. tipo b = DADOS) (lista_blocos dados))"
  using notas_blocos_proj [of g rel h dados "filter (\<lambda>b. tipo b = DADOS) (lista_blocos dados)" 0 "([], 1)", OF g]
  by (simp_all add: estado_final_def Let_def)

subsection \<open>The analysis of the example buffers\<close>

lemma analisar_ok: "tem_assinatura dados \<Longrightarrow> analisar rel dados nome = Inr (estado_final rel dados nome)"
  by (simp add: analisar_eq)

lemma estado_final_campos:
  "arquivo (estado_final rel dados nome) = Some (arquivo_final rel dados nome)"
  "blocos (estado_final rel dados nome) = lista_blocos dados"
  "regioes_nulas (estado_final rel dados nome) = regioes_loop dados 0 []"
  by (simp_all add: estado_final_def Let_def)

lemma entrada_nota_bytes:
  "entrada_nota = [72, 69, 51, 49, 50, 51, 52, 53, 54, 65, 66, 67, 120, 48, 48, 48, 49, 50, 46,
                   53, 48, 65, 65, 65]"
  by (simp add: entrada_nota_def bytes_de_def)

lemma entrada_nota_assinatura: "tem_assinatura entrada_nota"
  by (simp add: tem_assinatura_iff entrada_nota_bytes)

lemma entrada_nota_regioes: "regioes_loop entrada_nota 0 [] = []"
  by (simp add: entrada_nota_bytes avalia_regioes)

lemma entrada_nota_blocos: "lista_blocos entrada_nota = [bloco_final entrada_nota 0]"
  by (simp add: lista_blocos_def entrada_nota_regioes) (simp add: entrada_nota_bytes)

lemma entrada_nota_fatia: "fatia_bloco entrada_nota (bloco_final entrada_nota 0) = entrada_nota"
  by (simp add: fatia_bloco_def bloco_final_campos fatia_def)

lemma entrada_nota_aceitos: "aceitos entrada_nota = [3]"
  by (simp add: aceitos_def entrada_nota_bytes upto.simps candidato_aceito_def literal_em_def
      literal_decimal_def digito_ascii_def py_float_def valor_digitos_def)

lemma entrada_nota_resumo:
  "resumo_em (bloco_final entrada_nota 0) entrada_nota 3 = (3, cp ''123456'', cp ''ABC'', 25 / 2)"
  by (simp add: resumo_em_def bloco_final_campos entrada_nota_bytes literal_em_def cp_def
      strip_def isspace_def py_float_def valor_digitos_def)

lemma entrada_nota_notas:
  "map resumo (notas_fiscais (estado_final rel entrada_nota nome))
     = [(3, cp ''123456'', cp ''ABC'', 25 / 2)]"
  by (simp add: notas_estado_final(1) [of resumo rel "\<lambda>k. resumo_em", OF resumo_nota_de]
      entrada_nota_blocos bloco_final_campos entrada_nota_fatia entrada_nota_aceitos
      entrada_nota_resumo)

lemma entrada_nota_valor: "valor_em entrada_nota 3 = 25 / 2"
  by (simp add: valor_em_def entrada_nota_bytes literal_em_def py_float_def valor_digitos_def)

lemma cenario_assinatura: "tem_assinatura cenario"
  by (simp add: cenario_def tem_assinatura_HE3)

lemma cenario_regioes:
  "regioes_loop cenario 0 []
     = [\<lparr>inicio = 107, fim = 136, tamanho_regiao = 30\<rparr>,
        \<lparr>inicio = 154, fim = 178, tamanho_regiao = 25\<rparr>]"
  by (simp add: cenario_def bytes_de_def avalia_regioes)

lemma cenario_length: "length cenario = 179"
  by (simp add: cenario_def bytes_de_def)

lemma cenario_blocos:
  "lista_blocos cenario
     = [bloco_entre cenario 0 \<lparr>inicio = 107, fim = 136, tamanho_regiao = 30\<rparr>,
        bloco_entre cenario 137 \<lparr>inicio = 154, fim = 178, tamanho_regiao = 25\<rparr>]"
  by (simp add: lista_blocos_def cenario_regioes cenario_length)

lemma cenario_versao: "strip (decode_utf8_ignore (fatia cenario 3 7)) = [49, 46, 48, 0]"
proof -
  have "fatia cenario 3 7 = [49, 46, 48, 0]"
    by (simp add: fatia_def cenario_length) (simp add: cenario_def bytes_de_def)
  then show ?thesis
    by (simp add: decode_ascii_cons decode_utf8_ignore.simps [of "[]"] strip_def isspace_def)
qed

lemma entrada_longa_regioes:
  "regioes_loop entrada_longa 0 []
     = [\<lparr>inicio = 3, fim = 22, tamanho_regiao = 20\<rparr>,
        \<lparr>inicio = 1123, fim = 1142, tamanho_regiao = 20\<rparr>]"
  by (simp add: entrada_longa_def bytes_de_def avalia_regioes)

lemma entrada_longa_blocos:
  "lista_blocos entrada_longa
     = [bloco_entre entrada_longa 0 \<lparr>inicio = 3, fim = 22, tamanho_regiao = 20\<rparr>,
        bloco_entre entrada_longa 23 \<lparr>inicio = 1123, fim = 1142, tamanho_regiao = 20\<rparr>]"
  by (simp add: lista_blocos_def entrada_longa_regioes) (simp add: entrada_longa_def bytes_de_def)

lemma he3_blocos: "lista_blocos (bytes_de ''HE3'') = [bloco_final (bytes_de ''HE3'') 0]"
proof -
  have "regioes_loop (bytes_de ''HE3'') 0 [] = []"
    by (simp add: bytes_de_def avalia_regioes)
  then show ?thesis by (simp add: lista_blocos_def) (simp add: bytes_de_def)
qed

lemma soma_percentuais_final:
  assumes "dados \<noteq> []"
  shows "soma_percentuais (arquivo_final rel dados nome)
     = 100 - percentual_bytes_nulos (arquivo_final rel dados nome)"
proof -
  from assms have "(of_int (int (length dados)) :: rat) \<noteq> 0" by simp
  then show ?thesis
    by (simp add: soma_percentuais_def arquivo_final_def ArquivoBackup_init_def contagem_bytes_def
        percentual_def Let_def field_simps)
qed

lemma lista_blocos_tipos:
  assumes "tem_assinatura dados" "b \<in> set (lista_blocos dados)"
  shows "tipo b = tipo_por_inicio (int (length dados)) b"
proof -
  let ?n = "int (length dados)"
  let ?rs = "regioes_loop dados 0 []"
  let ?p = "fst (blocos_loop dados ?rs 0 [])"
  let ?bl = "snd (blocos_loop dados ?rs 0 [])"
  have sep: "bem_sep (0 + 1) ?n ?rs" using regioes_iniciais [OF assms(1)] by simp
  from assms(2) consider "b \<in> set ?bl" | "?p < ?n" "b = bloco_final dados ?p"
    by (auto simp: lista_blocos_eq [OF assms(1)] Let_def split: if_splits)
  then show ?thesis
  proof cases
    case 1
    from blocos_loop_props [OF sep 1] show ?thesis by (simp add: tipo_por_inicio_def)
  next
    case 2
    then show ?thesis by (simp add: tipo_por_inicio_def bloco_final_campos)
  qed
qed

lemma primeiro_bloco_com_regiao:
  assumes "tem_assinatura dados" "regioes_loop dados 0 [] \<noteq> []"
  shows "tipo (hd (lista_blocos dados)) = CABECALHO"
proof -
  from assms(2) obtain r rs where rs: "regioes_loop dados 0 [] = r # rs"
    by (cases "regioes_loop dados 0 []") auto
  with regioes_iniciais [OF assms(1)] have "0 < inicio r" by simp
  then have "snd (blocos_loop dados (r # rs) 0 [])
      = bloco_entre dados 0 r # snd (blocos_loop dados rs (fim r + 1) [])"
    by (simp add: blocos_loop_acc [of dados rs "fim r + 1" "[bloco_entre dados 0 r]"])
  then show ?thesis
    by (simp add: lista_blocos_eq [OF assms(1)] rs Let_def bloco_entre_campos)
qed

lemma mapa_densidade_janela_zero: "gerar_mapa_densidade dados 0 = Inl ZeroDivisionError"
  by (simp add: gerar_mapa_densidade_def)

subsection \<open>The density map\<close>

lemma mapa_loop_ok:
  assumes "\<And>i. i \<in> set js \<Longrightarrow> janela dados t i = Inr (f i)"
  shows "mapa_loop dados t js acc = Inr (acc @ map f js)"
  using assms by (induction js arbitrary: acc) (simp_all add: entao_def)

lemma classes_particao:
  "int (length (w :: byte list))
     = int (length (filter (\<lambda>b. b = 0) w)) + int (length (filter (\<lambda>b. b < 32 \<and> b \<noteq> 0) w))
       + int (length (filter (\<lambda>b. 32 \<le> b \<and> b \<le> 127) w)) + int (length (filter (\<lambda>b. 127 < b) w))"
proof (induction w)
  case Nil
  then show ?case by simp
next
  case (Cons b w)
  have "(if b = 0 then 1 else 0) + (if b < 32 \<and> b \<noteq> 0 then 1 else 0)
      + (if 32 \<le> b \<and> b \<le> 127 then 1 else 0) + (if 127 < b then 1 else 0) = (1::int)"
    by (auto simp: word_less_nat_alt word_le_nat_alt)
  then show ?case using Cons by (simp split: if_splits)
qed

lemma controle_sem_nulo:
  "filter (\<lambda>b. b < 32 \<and> b \<noteq> 0) (w :: byte list) = filter (\<lambda>b. 0 < b \<and> b < 32) w"
  by (rule filter_cong) (auto simp: word_gt_0)

lemma janela_fatia:
  assumes "0 < t" "0 \<le> m" "m < int (length dados)"
  shows "fatia dados m (min (m + t - 1) (int (length dados) - 1) + 1) = take (nat t) (drop (nat m) dados)"
    and "min (m + t - 1) (int (length dados) - 1) = m + int (length (take (nat t) (drop (nat m) dados))) - 1"
    and "take (nat t) (drop (nat m) dados) \<noteq> []"
proof -
  let ?n = "int (length dados)"
  let ?fi = "min (m + t - 1) (?n - 1)"
  have f: "fatia dados m (?fi + 1) = take (nat (?fi + 1 - m)) (drop (nat m) dados)"
    using assms by (intro fatia_take_drop) auto
  show "fatia dados m (?fi + 1) = take (nat t) (drop (nat m) dados)"
  proof (cases "m + t - 1 \<le> ?n - 1")
    case True
    then have "?fi + 1 - m = t" by simp
    with f show ?thesis by simp
  next
    case False
    then have "?fi + 1 - m = ?n - m" by simp
    moreover have "length (drop (nat m) dados) \<le> nat (?n - m)" using assms by simp
    moreover have "length (drop (nat m) dados) \<le> nat t" using assms False by simp
    ultimately show ?thesis using f by simp
  qed
  show "?fi = m + int (length (take (nat t) (drop (nat m) dados))) - 1"
    using assms by (auto simp: min_def)
  show "take (nat t) (drop (nat m) dados) \<noteq> []"
    using assms by auto
qed

lemma janela_eq:
  assumes "0 < t" "0 \<le> i * t" "i * t < int (length dados)"
  shows "janela dados t i = Inr (janela_esperada dados t i)"
proof -
  let ?w = "take (nat t) (drop (nat (i * t)) dados)"
  have d: "(i + 1) * t - 1 = i * t + t - 1" by (simp add: algebra_simps)
  note jf = janela_fatia [OF assms, unfolded d [symmetric]]
  have ne: "length ?w \<noteq> 0" using jf(3) by simp
  have r: "int (length ?w) - contar (\<lambda>b. b = 0) ?w - contar (\<lambda>b. b < 32 \<and> b \<noteq> 0) ?w
      - contar (\<lambda>b. 32 \<le> b \<and> b \<le> 127) ?w = int (length (filter (\<lambda>b. 127 < b) ?w))"
    using classes_particao [of ?w] by (simp add: contar_length)
  show ?thesis
    unfolding janela_def Let_def jf(1) r
    using ne jf(2) by (simp add: janela_esperada_def Let_def contar_length controle_sem_nulo)
qed

lemma indice_de_janela:
  assumes "0 < t" "i \<in> set [0..(int (length dados) + t - 1) div t - 1]"
  shows "0 \<le> i * t \<and> i * t < int (length dados)"
proof -
  let ?a = "int (length dados) + t - 1"
  from assms(2) have i: "0 \<le> i" "i + 1 \<le> ?a div t" by simp_all
  have "(i + 1) * t \<le> (?a div t) * t" using i(2) assms(1) by (intro mult_right_mono) simp_all
  also have "\<dots> = ?a - ?a mod t" by (simp add: minus_mod_eq_div_mult)
  also have "\<dots> \<le> ?a" using pos_mod_sign [OF assms(1), of ?a] by simp
  finally have "i * t + t \<le> ?a" by (simp add: algebra_simps)
  moreover have "0 \<le> i * t" using i(1) assms(1) by simp
  ultimately show ?thesis by simp
qed

section \<open>The claims\<close>

text \<open>
  Claim C1, at the buffer \<^verbatim>\<open>b"HE3\0"\<close>. The analysis accepts the buffer and reports 25% null,
  25% control, 75% printable ASCII and -25% other bytes, so that
  \<open>null% + (control% - null%) + ascii% + other%\<close> is 75 and not 100: the count of other bytes
  is the total less the null, control and ASCII counts, and the control count already
  includes the null bytes.
\<close>

theorem c1_percentuais_com_byte_nulo:
  "analisar rel (bytes_de ''HE3'' @ [0]) nome = Inr (estado_final rel (bytes_de ''HE3'' @ [0]) nome)
   \<and> map_option (\<lambda>a. (percentual_bytes_nulos a, percentual_controle a, percentual_ascii a,
                      percentual_unicode a))
        (arquivo (estado_final rel (bytes_de ''HE3'' @ [0]) nome)) = Some (25, 25, 75, - 25)
   \<and> map_option soma_percentuais (arquivo (estado_final rel (bytes_de ''HE3'' @ [0]) nome)) = Some 75"
proof -
  have "analisar rel (bytes_de ''HE3'' @ [0]) nome = Inr (estado_final rel (bytes_de ''HE3'' @ [0]) nome)"
    by (rule analisar_ok [OF tem_assinatura_HE3])
  moreover have "contagem_bytes (bytes_de ''HE3'' @ [0]) = (1, 1, 3, - 1)"
    by (simp add: contagem_bytes_def contar_length bytes_de_def)
  ultimately show ?thesis
    by (simp add: estado_final_campos arquivo_final_def soma_percentuais_def percentual_def
        bytes_de_def)
qed

text \<open>
  Claim C2, as amended. For the buffer of the scenario the analysis succeeds with signature
  "HE3" and a version of four characters, "1.0" followed by the NUL character (which
  \<^verbatim>\<open>strip\<close> does not remove); one HEADER block \<open>[0, 106]\<close> of length 107; a null region
  \<open>[107, 136]\<close> of length 30; one DEFINITION block \<open>[137, 153]\<close> of length 17 (it starts
  before offset 1024); a trailing null region \<open>[154, 178]\<close> of length 25; and no invoice
  record, since there is no DATA block.
\<close>

theorem c2_cenario:
  "analisar rel cenario nome = Inr (estado_final rel cenario nome)
   \<and> map_option assinatura (arquivo (estado_final rel cenario nome)) = Some (cp ''HE3'')
   \<and> map_option versao_formato (arquivo (estado_final rel cenario nome)) = Some (cp ''1.0'' @ [0])
   \<and> map (\<lambda>b. (posicao_inicio b, posicao_fim b, tamanho b, tipo b))
        (blocos (estado_final rel cenario nome))
       = [(0, 106, 107, CABECALHO), (137, 153, 17, DEFINICAO)]
   \<and> map (\<lambda>r. (inicio r, fim r, tamanho_regiao r)) (regioes_nulas (estado_final rel cenario nome))
       = [(107, 136, 30), (154, 178, 25)]
   \<and> notas_fiscais (estado_final rel cenario nome) = []"
proof -
  have a: "analisar rel cenario nome = Inr (estado_final rel cenario nome)"
    by (rule analisar_ok [OF cenario_assinatura])
  have n: "notas_fiscais (estado_final rel cenario nome) = []"
    by (simp add: estado_final_def Let_def cenario_blocos bloco_entre_campos)
  show ?thesis
    by (simp add: a n estado_final_campos arquivo_final_def cenario_versao cenario_blocos
        cenario_regioes bloco_entre_campos cp_def)
qed

text \<open>
  The claim as stated fails on the scenario: the result is not the expected one (the
  second block is a DEFINITION block, no invoice record is stored, and the version keeps
  the NUL character).
\<close>

theorem c2_counterexample:
  "analisar relogio_zero cenario [] = Inr (estado_final relogio_zero cenario [])
   \<and> \<not> cenario_esperado (estado_final relogio_zero cenario [])"
proof -
  have "analisar relogio_zero cenario [] = Inr (estado_final relogio_zero cenario [])"
    by (rule analisar_ok [OF cenario_assinatura])
  moreover have "map tipo (blocos (estado_final relogio_zero cenario [])) = [CABECALHO, DEFINICAO]"
    by (simp add: estado_final_campos cenario_blocos bloco_entre_campos)
  ultimately show ?thesis by (simp add: cenario_esperado_def)
qed

text \<open>
  Claim C3, at the buffer \<^verbatim>\<open>b"HE3"\<close>. The buffer has no null region, so the only block is
  the one emitted after the loop over the regions: it starts at offset 0, spans the whole
  buffer, and its kind is DATA, not HEADER.
\<close>

theorem c3_primeiro_bloco_sem_regioes:
  "analisar rel (bytes_de ''HE3'') nome = Inr (estado_final rel (bytes_de ''HE3'') nome)
   \<and> map (\<lambda>b. (posicao_inicio b, posicao_fim b, tipo b))
        (blocos (estado_final rel (bytes_de ''HE3'') nome)) = [(0, 2, DADOS)]"
proof -
  have "tem_assinatura (bytes_de ''HE3'')" using tem_assinatura_HE3 [of "[]"] by simp
  then have "analisar rel (bytes_de ''HE3'') nome = Inr (estado_final rel (bytes_de ''HE3'') nome)"
    by (rule analisar_ok)
  then show ?thesis
    by (simp add: estado_final_campos he3_blocos bloco_final_campos) (simp add: bytes_de_def)
qed

text \<open>
  Claim C4, as amended. In a successful analysis the kind of a block follows from its start
  offset: a block that ends where a null region starts is HEADER if it starts at offset
  0, DEFINITION if it starts at an offset from 1 to 1023 (wherever it ends), and DATA if
  it starts at offset 1024 or later; the tail block, which ends at the last byte of the
  buffer, is DATA when it does not start at offset 0. (Nothing is said of a tail block that
  starts at offset 0.)
\<close>

theorem c4_tipo_pelo_inicio:
  assumes "analisar rel dados nome = Inr s"
  shows "list_all (\<lambda>b. (posicao_inicio b = 0 \<and> posicao_fim b = int (length dados) - 1)
                        \<or> tipo b = tipo_por_inicio (int (length dados)) b) (blocos s)"
proof -
  from assms have ta: "tem_assinatura dados" and s: "s = estado_final rel dados nome"
    by (simp_all add: analisar_eq split: if_splits)
  show ?thesis
    using lista_blocos_tipos [OF ta] by (simp add: s estado_final_campos list_all_iff)
qed

theorem c4_witness:
  "analisar relogio_zero entrada_longa [] = Inr (estado_final relogio_zero entrada_longa [])
   \<and> map (\<lambda>b. (posicao_inicio b, posicao_fim b, tipo b))
        (blocos (estado_final relogio_zero entrada_longa []))
       = [(0, 2, CABECALHO), (23, 1122, DEFINICAO)]"
proof -
  have h: "analisar relogio_zero entrada_longa [] = Inr (estado_final relogio_zero entrada_longa [])"
    by (rule analisar_ok) (simp add: entrada_longa_def tem_assinatura_HE3)
  have n: "int (length entrada_longa) = 1143" by (simp add: entrada_longa_def bytes_de_def)
  from c4_tipo_pelo_inicio [OF h] h show ?thesis
    by (simp add: estado_final_campos entrada_longa_blocos bloco_entre_campos(1,2) n
        tipo_por_inicio_def)
qed

text \<open>
  The claim as stated fails: in the buffer \<^verbatim>\<open>b"HE3" + b"\0"*20 + b"A"*1100 + b"\0"*20\<close> the
  block \<open>[23, 1122]\<close> does not lie wholly before offset 1024, and its kind is DEFINITION,
  not DATA.
\<close>

theorem c4_counterexample:
  "analisar relogio_zero entrada_longa [] = Inr (estado_final relogio_zero entrada_longa [])
   \<and> map tipo (blocos (estado_final relogio_zero entrada_longa []))
       \<noteq> map tipo_por_posicao (blocos (estado_final relogio_zero entrada_longa []))"
proof -
  have "analisar relogio_zero entrada_longa [] = Inr (estado_final relogio_zero entrada_longa [])"
    by (rule analisar_ok) (simp add: entrada_longa_def tem_assinatura_HE3)
  then show ?thesis
    by (simp add: estado_final_campos entrada_longa_blocos bloco_entre_campos tipo_por_posicao_def)
qed

text \<open>
  Claim C5. For every buffer whose analysis succeeds (such a buffer is not empty), the
  blocks and the null regions of the result partition the offsets \<open>0 .. length - 1\<close>:
  every offset of the buffer lies in exactly one block or null region, no block or region
  contains an offset outside the buffer, and every block has a positive length, equal to
  \<open>posicao_fim - posicao_inicio + 1\<close>.
\<close>

theorem c5_blocos_e_regioes_particionam:
  assumes "analisar rel dados nome = Inr s"
  shows "(\<forall>k. ocupacao s k = (if 0 \<le> k \<and> k < int (length dados) then 1 else 0))
       \<and> (\<forall>b\<in>set (blocos s). 0 < tamanho b \<and> tamanho b = posicao_fim b - posicao_inicio b + 1)"
proof -
  from assms have ta: "tem_assinatura dados" and s: "s = estado_final rel dados nome"
    by (simp_all add: analisar_eq split: if_splits)
  let ?n = "int (length dados)"
  let ?rs = "regioes_loop dados 0 []"
  let ?p = "fst (blocos_loop dados ?rs 0 [])"
  let ?bl = "snd (blocos_loop dados ?rs 0 [])"
  have sep: "bem_sep (0 + 1) ?n ?rs" using regioes_iniciais [OF ta] by simp
  have n3: "3 \<le> ?n" using ta by (simp add: tem_assinatura_def)
  note cob = blocos_loop_cobertura [OF sep, of dados]
  have p: "0 \<le> ?p" "?p \<le> ?n" using cob n3 by (cases ?rs; auto)+
  have bs: "blocos s = (if ?p < ?n then ?bl @ [bloco_final dados ?p] else ?bl)"
    by (simp add: s estado_final_def lista_blocos_eq [OF ta] Let_def)
  have rs: "regioes_nulas s = ?rs" by (simp add: s estado_final_def Let_def)
  have oc: "ocupacao s k = (if 0 \<le> k \<and> k < ?n then 1 else 0)" for k
  proof -
    have "oc_b ?bl k + oc_r ?rs k = (if 0 \<le> k \<and> k < ?p then 1 else 0)"
      using cob by blast
    then show ?thesis
      using p by (auto simp: ocupacao_def bs rs oc_b_append oc_b_Cons bloco_final_campos oc_b_def [of "[]"]
          split: if_splits)
  qed
  have tam: "0 < tamanho b \<and> tamanho b = posicao_fim b - posicao_inicio b + 1"
    if "b \<in> set (blocos s)" for b
  proof -
    from that consider "b \<in> set ?bl" | "?p < ?n" "b = bloco_final dados ?p"
      by (auto simp: bs split: if_splits)
    then show ?thesis
    proof cases
      case 1
      from blocos_loop_props [OF sep 1] show ?thesis by simp
    next
      case 2
      then show ?thesis by (simp add: bloco_final_campos)
    qed
  qed
  from oc tam show ?thesis by blast
qed

theorem c5_witness:
  "analisar relogio_zero entrada_regiao [] = Inr (estado_final relogio_zero entrada_regiao [])
   \<and> ocupacao (estado_final relogio_zero entrada_regiao []) 10 = 1
   \<and> ocupacao (estado_final relogio_zero entrada_regiao []) 24 = 0"
proof -
  have h: "analisar relogio_zero entrada_regiao [] = Inr (estado_final relogio_zero entrada_regiao [])"
    by (simp add: analisar_eq entrada_regiao_def tem_assinatura_HE3)
  have n: "int (length entrada_regiao) = 24" by (simp add: entrada_regiao_def bytes_de_def)
  from c5_blocos_e_regioes_particionam [OF h] n
  have "ocupacao (estado_final relogio_zero entrada_regiao []) k = (if 0 \<le> k \<and> k < 24 then 1 else 0)" for k
    by simp
  from this [of 10] this [of 24] h show ?thesis by simp
qed

text \<open>
  Claim C6. In every successful analysis the stored invoice records are exactly the
  candidates that the acceptance rule admits: for each DATA block in turn and each offset
  scanned in its slice in ascending order, a record is stored if and only if the six
  bytes at the offset are ASCII digits, the 8-byte window that starts 10 bytes after the
  offset, filtered to the bytes in \<open>[32, 127]\<close>, is a decimal literal (at most one point,
  otherwise digits), and the value parsed from it is positive. A rejected candidate leaves
  no record and no error: the analysis still succeeds and the other candidates are stored.
\<close>

theorem c6_notas_sao_os_candidatos_aceitos:
  assumes "analisar rel dados nome = Inr s"
  shows "map resumo (notas_fiscais s)
     = concat (map (\<lambda>b. map (resumo_em b (fatia_bloco dados b)) (aceitos (fatia_bloco dados b)))
                (filter (\<lambda>b. tipo b = DADOS) (blocos s)))"
proof -
  from assms have s: "s = estado_final rel dados nome"
    by (simp add: analisar_eq split: if_splits)
  have b: "blocos s = lista_blocos dados" by (simp add: s estado_final_def Let_def)
  show ?thesis
    unfolding b
    by (simp add: s notas_estado_final(1) [of resumo rel "\<lambda>k. resumo_em", OF resumo_nota_de]
        notas_esperadas_concat)
qed

theorem c6_witness:
  "analisar relogio_zero entrada_nota [] = Inr (estado_final relogio_zero entrada_nota [])
   \<and> map resumo (notas_fiscais (estado_final relogio_zero entrada_nota []))
       = [(3, cp ''123456'', cp ''ABC'', 25 / 2)]"
proof -
  have h: "analisar relogio_zero entrada_nota [] = Inr (estado_final relogio_zero entrada_nota [])"
    by (rule analisar_ok [OF entrada_nota_assinatura])
  have b: "filter (\<lambda>b. tipo b = DADOS) (blocos (estado_final relogio_zero entrada_nota []))
      = [bloco_final entrada_nota 0]"
    by (simp add: estado_final_def Let_def entrada_nota_blocos bloco_final_campos)
  from c6_notas_sao_os_candidatos_aceitos [OF h] h show ?thesis
    by (simp add: b entrada_nota_fatia entrada_nota_aceitos entrada_nota_resumo)
qed

text \<open>
  Claim C7, as amended. For the zero-length buffer the analysis fails with the
  invalid-signature error, the only error it has (there is no separate error for an empty
  input); the failure comes before the percentages, and no analysis, of any buffer, ends in
  a division by zero.
\<close>

theorem c7_vazio_sem_assinatura:
  "analisar rel [] nome = Inl SemAssinaturaHE3 \<and> analisar rel dados nome \<noteq> Inl ZeroDivisionError"
  by (simp add: analisar_eq tem_assinatura_def)

text \<open>
  The claim as stated fails: the empty buffer gets the same error as a buffer with a wrong
  signature, not an error of its own.
\<close>

theorem c7_counterexample:
  "analisar relogio_zero [] [] = Inl SemAssinaturaHE3
   \<and> analisar relogio_zero (bytes_de ''XYZ'') [] = Inl SemAssinaturaHE3"
  by (simp add: analisar_eq tem_assinatura_iff bytes_de_def)

text \<open>
  Claim C8, as amended. For every buffer and every positive window size, the density map
  has one window for each consecutive stretch of that many bytes, in offset order, the
  last one truncated at the end of the buffer, and reports for each window the share, over
  the window's length, of four disjoint classes of its bytes: null (byte = 0), control
  without null (0 < byte < 32), printable ASCII (32 \<le> byte \<le> 127) and the rest
  (byte > 127).
\<close>

theorem c8_mapa_densidade:
  assumes "0 < t"
  shows "gerar_mapa_densidade dados t
     = Inr (map (janela_esperada dados t) [0..(int (length dados) + t - 1) div t - 1])"
proof -
  let ?js = "[0..(int (length dados) + t - 1) div t - 1]"
  have j: "janela dados t i = Inr (janela_esperada dados t i)" if "i \<in> set ?js" for i
    using indice_de_janela [OF assms that] by (intro janela_eq [OF assms]) simp_all
  have "mapa_loop dados t ?js [] = Inr ([] @ map (janela_esperada dados t) ?js)"
    by (rule mapa_loop_ok) (rule j)
  with assms show ?thesis by (simp add: gerar_mapa_densidade_def)
qed

theorem c8_witness:
  "(0::int) < 4
   \<and> gerar_mapa_densidade [72, 69, 51, 0, 2, 200] 4
       = Inr [\<lparr>janela_inicio = 0, janela_fim = 3, densidade_nulos = 1 / 4,
                densidade_controle = 0, densidade_ascii = 3 / 4, densidade_unicode = 0\<rparr>,
              \<lparr>janela_inicio = 4, janela_fim = 5, densidade_nulos = 0,
                densidade_controle = 1 / 2, densidade_ascii = 0, densidade_unicode = 1 / 2\<rparr>]"
proof -
  have h: "(0::int) < 4" by simp
  have u: "[0..(1::int)] = [0, 1]" by (simp add: upto.simps)
  from c8_mapa_densidade [OF h, of "[72, 69, 51, 0, 2, 200]"] show ?thesis
    by (simp add: u janela_esperada_def)
qed

text \<open>
  The claim as stated fails: the density map does not count a null byte as a control
  byte, as the distribution of carregar\_arquivo does. For the buffer of one null byte and
  a window of one byte, the control density is 0, while the control count of the
  distribution is 1 of 1 byte.
\<close>

theorem c8_counterexample:
  "gerar_mapa_densidade [0] 1
     = Inr [\<lparr>janela_inicio = 0, janela_fim = 0, densidade_nulos = 1, densidade_controle = 0,
              densidade_ascii = 0, densidade_unicode = 0\<rparr>]
   \<and> fst (snd (contagem_bytes [0])) = 1"
  by (simp add: gerar_mapa_densidade_def janela_def fatia_def contar_length contagem_bytes_def
      entao_def upto.simps)

text \<open>
  Claim C9, as amended. Two runs of the analysis on the same buffer and file name, each from a fresh
  analyzer, give the same result in every field except the two timestamps read from the
  clock (\<^verbatim>\<open>data_criacao\<close> of the file and \<^verbatim>\<open>data_emissao\<close> of each invoice record):
  with the timestamps set to 0 the results of any two clocks are equal.
\<close>

theorem c9_execucoes_iguais_salvo_relogio:
  "map_sum id sem_tempo (analisar rel1 dados nome) = map_sum id sem_tempo (analisar rel2 dados nome)"
proof (cases "tem_assinatura dados")
  case False
  then show ?thesis by (simp add: analisar_eq)
next
  case True
  have n: "map sem_tempo_nota (notas_fiscais (estado_final rel dados nome))
      = notas_esperadas (\<lambda>k b db j. sem_tempo_nota (nota_de relogio_zero k b db j 0)) dados
          (filter (\<lambda>b. tipo b = DADOS) (lista_blocos dados)) 0" for rel
    by (rule notas_estado_final(1) [of sem_tempo_nota rel
          "\<lambda>k b db j. sem_tempo_nota (nota_de relogio_zero k b db j 0)", OF sem_tempo_nota_de])
  have l: "leituras (estado_final rel dados nome)
      = 1 + leituras_esperadas dados (filter (\<lambda>b. tipo b = DADOS) (lista_blocos dados))" for rel
    by (rule notas_estado_final(2) [of sem_tempo_nota rel
          "\<lambda>k b db j. sem_tempo_nota (nota_de relogio_zero k b db j 0)", OF sem_tempo_nota_de])
  have "sem_tempo (estado_final rel1 dados nome) = sem_tempo (estado_final rel2 dados nome)"
    by (rule PDVBackupAnalyzer.equality)
       (simp_all add: sem_tempo_def n l estado_final_campos arquivo_final_def ArquivoBackup_init_def)
  with True show ?thesis by (simp add: analisar_eq)
qed

text \<open>
  The claim as stated (identical output structures) fails: the file record carries the time
  read from the clock, so two runs on the buffer \<^verbatim>\<open>b"HE3"\<close> whose clocks read 0 and 1
  return different results.
\<close>

theorem c9_counterexample:
  "analisar relogio_zero (bytes_de ''HE3'') [] \<noteq> analisar relogio_um (bytes_de ''HE3'') []"
proof
  assume e: "analisar relogio_zero (bytes_de ''HE3'') [] = analisar relogio_um (bytes_de ''HE3'') []"
  have t: "tem_assinatura (bytes_de ''HE3'')" using tem_assinatura_HE3 [of "[]"] by simp
  from e have "estado_final relogio_zero (bytes_de ''HE3'') [] = estado_final relogio_um (bytes_de ''HE3'') []"
    by (simp add: analisar_eq t)
  then have "map_option data_criacao (arquivo (estado_final relogio_zero (bytes_de ''HE3'') []))
      = map_option data_criacao (arquivo (estado_final relogio_um (bytes_de ''HE3'') []))"
    by simp
  then show False
    by (simp add: estado_final_def Let_def arquivo_final_def ArquivoBackup_init_def
        relogio_zero_def relogio_um_def)
qed

text \<open>
  Claim C10. Every invoice record stored by a successful analysis has its final value equal
  to its total value, and its discount and surcharge equal to 0: the stored records are,
  for each DATA block in turn and each accepted offset of its slice in ascending order,
  one record whose total value and final value are both the value parsed from the value
  window of that candidate, a positive value, with discount 0 and surcharge 0.
\<close>

theorem c10_valor_final_igual_ao_total:
  assumes "analisar rel dados nome = Inr s"
  shows "map valores (notas_fiscais s)
       = concat (map (\<lambda>b. map (\<lambda>i. (valor_em (fatia_bloco dados b) i,
                                      valor_em (fatia_bloco dados b) i, 0, 0))
                             (aceitos (fatia_bloco dados b)))
                  (filter (\<lambda>b. tipo b = DADOS) (blocos s)))
     \<and> list_all nota_integra (notas_fiscais s)"
proof -
  from assms have s: "s = estado_final rel dados nome"
    by (simp add: analisar_eq split: if_splits)
  let ?bl = "filter (\<lambda>b. tipo b = DADOS) (lista_blocos dados)"
  let ?v = "\<lambda>b i. (valor_em (fatia_bloco dados b) i, valor_em (fatia_bloco dados b) i,
                    0 :: rat, 0 :: rat)"
  have "map valores (notas_fiscais s)
      = notas_esperadas (\<lambda>k b db j. (valor_em db j, valor_em db j, 0, 0)) dados ?bl 0"
    unfolding s
    by (rule notas_estado_final(1) [of valores rel "\<lambda>k b db j. (valor_em db j, valor_em db j, 0, 0)",
          OF valores_nota_de])
  then have m: "map valores (notas_fiscais s)
      = concat (map (\<lambda>b. map (?v b) (aceitos (fatia_bloco dados b))) ?bl)"
    by (simp add: notas_esperadas_concat)
  have "nota_integra n" if "n \<in> set (notas_fiscais s)" for n
  proof -
    from that have "valores n \<in> set (map valores (notas_fiscais s))" by simp
    then obtain b i where "i \<in> set (aceitos (fatia_bloco dados b))" "valores n = ?v b i"
      unfolding m by auto
    with aceito_valor_positivo [of i "fatia_bloco dados b"] show ?thesis
      by (simp add: nota_integra_def valores_def)
  qed
  then have "list_all nota_integra (notas_fiscais s)" by (simp add: list_all_iff)
  with m show ?thesis by (simp add: s estado_final_campos)
qed

theorem c10_witness:
  "analisar relogio_zero entrada_nota [] = Inr (estado_final relogio_zero entrada_nota [])
   \<and> map valores (notas_fiscais (estado_final relogio_zero entrada_nota []))
       = [(25 / 2, 25 / 2, 0, 0)]
   \<and> list_all nota_integra (notas_fiscais (estado_final relogio_zero entrada_nota []))"
proof -
  have h: "analisar relogio_zero entrada_nota [] = Inr (estado_final relogio_zero entrada_nota [])"
    by (rule analisar_ok [OF entrada_nota_assinatura])
  have b: "filter (\<lambda>b. tipo b = DADOS) (blocos (estado_final relogio_zero entrada_nota []))
      = [bloco_final entrada_nota 0]"
    by (simp add: estado_final_campos entrada_nota_blocos bloco_final_campos)
  from c10_valor_final_igual_ao_total [OF h] h show ?thesis
    by (simp add: b entrada_nota_fatia entrada_nota_aceitos entrada_nota_valor)
qed

end
